theory Spec2Isabelle
  imports Main "HOL-Library.Multiset" "HOL-Library.Countable"
begin

section \<open>Python values and exceptions\<close>

text \<open>
  The helpers of \<^verbatim>\<open>geohelpers.py\<close> are dynamically typed: \<^verbatim>\<open>chunksize\<close> and
  \<^verbatim>\<open>accuracy_m\<close> are passed through the builtin \<^verbatim>\<open>int(...)\<close> before use, so the
  model keeps them as Python values. Floats are left out of \<open>pyval\<close>. A raised exception
  is the \<open>Inl\<close> branch of a sum; the string of a \<open>ValueError\<close> is its message, a
  \<open>KeyError\<close> carries the labels that were not found and an \<open>AttributeError\<close> the name
  that the module does not define. Console output (\<^verbatim>\<open>print\<close>) is not modelled.
\<close>

datatype error =
    TypeError
  | ValueError string
  | KeyError "string list"
  | AttributeError string
  | FileExistsError

datatype pyval =
    PNone
  | PBool bool
  | PInt int
  | PStr string
  | PList "pyval list"

subsection \<open>The builtin \<^verbatim>\<open>int\<close>\<close>

text \<open>
  \<^verbatim>\<open>int(s)\<close> on a string strips white space, reads an optional sign and then decimal
  digits, where single underscores may separate digits; anything else raises
  \<^verbatim>\<open>ValueError\<close>. Only ASCII is modelled. \<^verbatim>\<open>int(None)\<close> and \<^verbatim>\<open>int([...])\<close> raise
  \<^verbatim>\<open>TypeError\<close>; a bool converts to 0 or 1.
\<close>

definition is_space :: "char \<Rightarrow> bool" where
  "is_space c = (of_char c \<in> {32, 9, 10, 11, 12, 13 :: nat})"

definition is_digit :: "char \<Rightarrow> bool" where
  "is_digit c = (48 \<le> (of_char c :: nat) \<and> (of_char c :: nat) \<le> 57)"

definition digit_val :: "char \<Rightarrow> nat" where
  "digit_val c = of_char c - 48"

definition strip :: "string \<Rightarrow> string" where
  "strip s = rev (dropWhile is_space (rev (dropWhile is_space s)))"

fun parse_digits :: "bool \<Rightarrow> nat \<Rightarrow> string \<Rightarrow> nat option" where
  "parse_digits d acc [] = (if d then Some acc else None)"
| "parse_digits d acc (c # cs) =
     (if is_digit c then parse_digits True (10 * acc + digit_val c) cs
      else if c = CHR ''_'' \<and> d then parse_digits False acc cs
      else None)"

definition int_of_string :: "string \<Rightarrow> int option" where
  "int_of_string s =
     (case strip s of
        [] \<Rightarrow> None
      | c # cs \<Rightarrow>
          if c = CHR ''-'' then map_option (\<lambda>n. - int n) (parse_digits False 0 cs)
          else if c = CHR ''+'' then map_option int (parse_digits False 0 cs)
          else map_option int (parse_digits False 0 (c # cs)))"

fun py_int :: "pyval \<Rightarrow> error + int" where
  "py_int PNone = Inl TypeError"
| "py_int (PBool b) = Inr (if b then 1 else 0)"
| "py_int (PInt i) = Inr i"
| "py_int (PStr s) =
     (case int_of_string s of
        None \<Rightarrow> Inl (ValueError (''invalid literal for int() with base 10: '' @ s))
      | Some i \<Rightarrow> Inr i)"
| "py_int (PList xs) = Inl TypeError"

section \<open>Chunk size heuristic\<close>

text \<open>
  \<^verbatim>\<open>_check_chunksize(chunksize, df_size)\<close>: the \<^verbatim>\<open>try\<close> block converts with
  \<^verbatim>\<open>int\<close>; only \<^verbatim>\<open>TypeError\<close> is caught and replaced by the adaptive default, every
  other exception leaves the function. \<open>df_size\<close> is \<^verbatim>\<open>df.shape[0]\<close>, a row count.
\<close>

definition default_chunksize :: "nat \<Rightarrow> int" where
  "default_chunksize df_size = min (max (int df_size div 50) 5000) 60000"

definition check_chunksize :: "pyval \<Rightarrow> nat \<Rightarrow> error + int" where
  "check_chunksize chunksize df_size =
     (case py_int chunksize of
        Inr c \<Rightarrow> Inr c
      | Inl TypeError \<Rightarrow> Inr (default_chunksize df_size)
      | Inl e \<Rightarrow> Inl e)"

section \<open>Data frames, row-wise\<close>

text \<open>
  A pandas frame seen row by row: each row carries its index label. The row type \<open>'r\<close>
  holds the values of one row, so the columns are fixed by the type. \<^verbatim>\<open>df.shape[0]\<close> is
  the length of the list.
\<close>

type_synonym 'r frame = "(int \<times> 'r) list"

text \<open>\<^verbatim>\<open>pd.DataFrame(rows)\<close>: fresh labels 0, 1, 2, ...\<close>

definition DataFrame :: "'r list \<Rightarrow> 'r frame" where
  "DataFrame rs = zip (map int [0..<length rs]) rs"

text \<open>\<^verbatim>\<open>df.reset_index(drop=True)\<close>\<close>

definition reset_index :: "'r frame \<Rightarrow> 'r frame" where
  "reset_index df = DataFrame (map snd df)"

text \<open>
  \<^verbatim>\<open>pd.concat(dfs)\<close> keeps every row with its label, in list order; on an empty list it
  raises \<^verbatim>\<open>ValueError\<close>.
\<close>

definition pd_concat :: "'r frame list \<Rightarrow> error + 'r frame" where
  "pd_concat dfs =
     (if dfs = [] then Inl (ValueError ''No objects to concatenate'') else Inr (concat dfs))"

text \<open>
  \<^verbatim>\<open>df.groupby(keys)\<close> with an array of one key per row, iterated: one group per distinct
  key, in ascending key order, each group holding the rows of that key in their original
  order.
\<close>

definition groupby :: "'r frame \<Rightarrow> int list \<Rightarrow> (int \<times> 'r frame) list" where
  "groupby df keys =
     map (\<lambda>g. (g, map snd (filter (\<lambda>(k, r). k = g) (zip keys df)))) (sort (remdups keys))"

section \<open>Chunker\<close>

text \<open>
  \<^verbatim>\<open>_chunker(df, chunksize)\<close>: a falsy chunksize (\<^verbatim>\<open>None\<close> or 0) gives the one-element
  list \<^verbatim>\<open>[df]\<close>; otherwise the rows are grouped by \<^verbatim>\<open>np.arange(df.shape[0]) // chunksize\<close>
  (floor division, as \<open>div\<close> on \<open>int\<close>).
\<close>

definition chunker :: "'r frame \<Rightarrow> int option \<Rightarrow> 'r frame list" where
  "chunker df chunksize =
     (case chunksize of
        None \<Rightarrow> [df]
      | Some c \<Rightarrow>
          if c = 0 then [df]
          else map snd (groupby df (map (\<lambda>i. int i div c) [0..<length df])))"

section \<open>Spatial locator\<close>

text \<open>
  \<^verbatim>\<open>do_join\<close> is \<^verbatim>\<open>gpd.sjoin(points, geometries, how='inner', op='within')\<close>: one result
  row for every pair of a point row and a polygon row with the point within the polygon,
  labelled with the point's label and made of the point's values, the polygon's label
  (\<^verbatim>\<open>index_geometries\<close>) and the polygon's values. \<open>within\<close> is the geometric predicate
  on the two rows' geometries. The row order of the result is the library's own:
  \<open>arrange\<close> stands for it, applied to the matching pairs listed point by point.
\<close>

definition do_join ::
  "(('p \<times> int \<times> 'g) frame \<Rightarrow> ('p \<times> int \<times> 'g) frame) \<Rightarrow> ('p \<Rightarrow> 'g \<Rightarrow> bool)
     \<Rightarrow> 'p frame \<Rightarrow> 'g frame \<Rightarrow> ('p \<times> int \<times> 'g) frame" where
  "do_join arrange within points geometries =
     arrange (concat (map (\<lambda>(i, p).
        map (\<lambda>(j, g). (i, (p, j, g))) (filter (\<lambda>(j, g). within p g) geometries)) points))"

text \<open>
  \<^verbatim>\<open>locate_points(points, geometries, chunksize)\<close>: the chunk size goes through
  \<^verbatim>\<open>_check_chunksize\<close>, every chunk of \<^verbatim>\<open>_chunker\<close> is joined, the results are
  concatenated and the index is reset.
\<close>

definition locate_points ::
  "(('p \<times> int \<times> 'g) frame \<Rightarrow> ('p \<times> int \<times> 'g) frame) \<Rightarrow> ('p \<Rightarrow> 'g \<Rightarrow> bool)
     \<Rightarrow> 'p frame \<Rightarrow> 'g frame \<Rightarrow> pyval \<Rightarrow> error + ('p \<times> int \<times> 'g) frame" where
  "locate_points arrange within points geometries chunksize =
     (case check_chunksize chunksize (length points) of
        Inl e \<Rightarrow> Inl e
      | Inr c \<Rightarrow>
          (case pd_concat (map (\<lambda>small_points. do_join arrange within small_points geometries)
                               (chunker points (Some c))) of
             Inl e \<Rightarrow> Inl e
           | Inr ret \<Rightarrow> Inr (reset_index ret)))"

section \<open>Grid generator\<close>

text \<open>
  \<^verbatim>\<open>cartesian_product(lats, longs)\<close> is
  \<^verbatim>\<open>np.stack(np.meshgrid(lats, longs), axis=-1).reshape(-1, 2)\<close>. \<^verbatim>\<open>np.meshgrid\<close> with
  its default \<^verbatim>\<open>indexing='xy'\<close> returns two matrices of \<open>length longs\<close> rows and
  \<open>length lats\<close> columns: in the first every row is \<open>lats\<close>, in the second row \<open>i\<close> repeats
  \<open>longs ! i\<close>. Stacking on the last axis pairs the entries, and the reshape lists the
  pairs row by row.
\<close>

definition meshgrid :: "'a list \<Rightarrow> 'b list \<Rightarrow> 'a list list \<times> 'b list list" where
  "meshgrid xs ys = (replicate (length ys) xs, map (\<lambda>y. replicate (length xs) y) ys)"

definition stack_last :: "'a list list \<times> 'b list list \<Rightarrow> ('a \<times> 'b) list list" where
  "stack_last m = map (\<lambda>(xrow, yrow). zip xrow yrow) (zip (fst m) (snd m))"

definition cartesian_product :: "'a list \<Rightarrow> 'b list \<Rightarrow> ('a \<times> 'b) list" where
  "cartesian_product lats longs = concat (stack_last (meshgrid lats longs))"

text \<open>
  \<^verbatim>\<open>np.array_split(ary, n)\<close>: \<open>n\<close> sections, the first \<open>length ary mod n\<close> of them one
  element longer than the others; \<open>n = 0\<close> raises \<^verbatim>\<open>ValueError\<close>.
\<close>

fun split_sizes :: "'a list \<Rightarrow> nat list \<Rightarrow> 'a list list" where
  "split_sizes xs [] = []"
| "split_sizes xs (s # ss) = take s xs # split_sizes (drop s xs) ss"

definition array_split :: "'a list \<Rightarrow> nat \<Rightarrow> error + 'a list list" where
  "array_split ary n =
     (if n = 0 then Inl (ValueError ''number sections must be larger than 0.'')
      else Inr (split_sizes ary
             (replicate (length ary mod n) (length ary div n + 1)
              @ replicate (n - length ary mod n) (length ary div n))))"

text \<open>A loop that appends one result per element stops at the first exception.\<close>

fun collect :: "(error + 'a) list \<Rightarrow> error + 'a list" where
  "collect [] = Inr []"
| "collect (x # xs) =
     (case x of
        Inl e \<Rightarrow> Inl e
      | Inr v \<Rightarrow> (case collect xs of Inl e \<Rightarrow> Inl e | Inr vs \<Rightarrow> Inr (v # vs)))"

text \<open>
  \<^verbatim>\<open>_generate_smaller_grid(lats, longs, accuracy_m, verbose)\<close>; \<^verbatim>\<open>accuracy_m\<close> and
  \<^verbatim>\<open>verbose\<close> are only passed on and printed, so they are left out. The recursion ends
  because every section of an array of at least 1500 elements is shorter than the array.
\<close>

function generate_smaller_grid :: "'a list \<Rightarrow> 'b list \<Rightarrow> error + ('a \<times> 'b) frame" where
  "generate_smaller_grid lats longs =
     (if max (length lats) (length longs) \<ge> 1500 then
        (if length lats > length longs then
           (case array_split lats (length lats div 100) of
              Inl e \<Rightarrow> Inl e
            | Inr parts \<Rightarrow>
                (case collect (map (\<lambda>lat. generate_smaller_grid lat longs) parts) of
                   Inl e \<Rightarrow> Inl e
                 | Inr dfs \<Rightarrow> pd_concat dfs))
         else
           (case array_split longs (length longs div 100) of
              Inl e \<Rightarrow> Inl e
            | Inr parts \<Rightarrow>
                (case collect (map (\<lambda>lon. generate_smaller_grid lats lon) parts) of
                   Inl e \<Rightarrow> Inl e
                 | Inr dfs \<Rightarrow> pd_concat dfs)))
      else Inr (DataFrame (cartesian_product lats longs)))"
  by pat_completeness auto
termination
proof (relation "measure (\<lambda>(lats, longs). length lats + length longs)")
  have sizes: "p \<in> set (split_sizes xs ss) \<Longrightarrow> \<exists>s\<in>set ss. length p \<le> s"
    for p :: "'c list" and xs ss
    by (induction ss arbitrary: xs) auto
  have shorter: "length p < length xs"
    if "1500 \<le> length xs" "array_split xs (length xs div 100) = Inr parts" "p \<in> set parts"
    for p xs :: "'c list" and parts
  proof -
    let ?n = "length xs div 100"
    have n: "15 \<le> ?n" using that(1) by simp
    then have "p \<in> set (split_sizes xs
             (replicate (length xs mod ?n) (length xs div ?n + 1)
              @ replicate (?n - length xs mod ?n) (length xs div ?n)))"
      using that(2,3) by (auto simp: array_split_def split: if_splits)
    from sizes [OF this] have "length p \<le> length xs div ?n + 1"
      by (auto split: if_splits)
    moreover have "length xs div ?n \<le> length xs div 15"
      using n by (intro div_le_mono2) simp_all
    ultimately show ?thesis using that(1) by simp
  qed
  show "wf (measure (\<lambda>(lats :: 'a list, longs :: 'b list). length lats + length longs))"
    by simp
  show "((lat, longs), (lats, longs))
          \<in> measure (\<lambda>(lats, longs). length lats + length longs)"
    if "1500 \<le> max (length lats) (length longs)" "length longs < length lats"
       "array_split lats (length lats div 100) = Inr parts" "lat \<in> set parts"
    for lats :: "'a list" and longs :: "'b list" and parts lat
    using shorter [of lats parts lat] that by simp
  show "((lats, lon), (lats, longs))
          \<in> measure (\<lambda>(lats, longs). length lats + length longs)"
    if "1500 \<le> max (length lats) (length longs)" "\<not> length longs < length lats"
       "array_split longs (length longs div 100) = Inr parts" "lon \<in> set parts"
    for lats :: "'a list" and longs :: "'b list" and parts lon
    using shorter [of longs parts lon] that by simp
qed

declare generate_smaller_grid.simps [simp del]

text \<open>
  \<^verbatim>\<open>np.min\<close> and \<^verbatim>\<open>np.max\<close> raise \<^verbatim>\<open>ValueError\<close> on an empty array.
\<close>

definition np_min :: "'a::linorder list \<Rightarrow> error + 'a" where
  "np_min xs =
     (case xs of
        [] \<Rightarrow> Inl (ValueError ''zero-size array to reduction operation minimum which has no identity'')
      | x # xs' \<Rightarrow> Inr (fold min xs' x))"

definition np_max :: "'a::linorder list \<Rightarrow> error + 'a" where
  "np_max xs =
     (case xs of
        [] \<Rightarrow> Inl (ValueError ''zero-size array to reduction operation maximum which has no identity'')
      | x # xs' \<Rightarrow> Inr (fold max xs' x))"

text \<open>
  The validation of \<^verbatim>\<open>generate_grid\<close> (its \<^verbatim>\<open>try\<close> block): \<^verbatim>\<open>int(accuracy_m)\<close> must be
  one of \<^verbatim>\<open>10**x for x in range(6)\<close>; \<^verbatim>\<open>except Exception\<close> turns every exception of the
  block, a failed conversion included, into the one \<^verbatim>\<open>ValueError\<close>.
\<close>

definition accuracy_try_block :: "pyval \<Rightarrow> error + int" where
  "accuracy_try_block accuracy_m =
     (case py_int accuracy_m of
        Inl e \<Rightarrow> Inl e
      | Inr a \<Rightarrow>
          if a \<notin> set (map (\<lambda>x. 10 ^ x) [0..<6])
          then Inl (ValueError ''accuracy_m not in (1,10,100,1000,10000,100000)'')
          else Inr a)"

definition validate_accuracy :: "pyval \<Rightarrow> error + int" where
  "validate_accuracy accuracy_m =
     (case accuracy_try_block accuracy_m of
        Inl e \<Rightarrow>
          Inl (ValueError ''accuracy_m must be one of these values: (1,10,100,1000,10000,100000)'')
      | Inr a \<Rightarrow> Inr a)"

text \<open>
  The grid construction of \<^verbatim>\<open>generate_grid\<close>, after the validation. The coordinates are
  floating point numbers in the source; here they are of any ordered type \<open>'a\<close>, with
  \<^verbatim>\<open>np.arange\<close> and the division \<^verbatim>\<open>accuracy_m/100000\<close> as parameters \<open>arange\<close> and
  \<open>true_div\<close>.
\<close>

definition grid_construction ::
  "('a \<Rightarrow> 'a \<Rightarrow> 'a \<Rightarrow> 'a list) \<Rightarrow> 'a \<Rightarrow> 'a::linorder list \<Rightarrow> 'a list \<Rightarrow> error + ('a \<times> 'a) frame" where
  "grid_construction arange steps lats longs =
     (case np_min lats of Inl e \<Rightarrow> Inl e | Inr lat_min \<Rightarrow>
      case np_max lats of Inl e \<Rightarrow> Inl e | Inr lat_max \<Rightarrow>
      case np_min longs of Inl e \<Rightarrow> Inl e | Inr long_min \<Rightarrow>
      case np_max longs of Inl e \<Rightarrow> Inl e | Inr long_max \<Rightarrow>
      case generate_smaller_grid (arange lat_min lat_max steps) (arange long_min long_max steps) of
        Inl e \<Rightarrow> Inl e
      | Inr grid \<Rightarrow> Inr (reset_index grid))"

definition generate_grid ::
  "('a \<Rightarrow> 'a \<Rightarrow> 'a \<Rightarrow> 'a list) \<Rightarrow> (int \<Rightarrow> 'a) \<Rightarrow> 'a::linorder list \<Rightarrow> 'a list \<Rightarrow> pyval
     \<Rightarrow> error + ('a \<times> 'a) frame" where
  "generate_grid arange true_div lats longs accuracy_m =
     (case validate_accuracy accuracy_m of
        Inl e \<Rightarrow> Inl e
      | Inr a \<Rightarrow> grid_construction arange (true_div a) lats longs)"

section \<open>Saving with a column selection\<close>

text \<open>
  For \<^verbatim>\<open>save_data\<close> the columns have names: a frame is its list of column names and
  its labelled rows, every row a list of cells in column order. Column names are taken
  to be distinct and every row to have one cell per column (\<open>wf_dataframe\<close>).
\<close>

record 'v dataframe =
  columns :: "string list"
  records :: "(int \<times> 'v list) list"

definition wf_dataframe :: "'v dataframe \<Rightarrow> bool" where
  "wf_dataframe df =
     (distinct (columns df) \<and> list_all (\<lambda>(i, r). length r = length (columns df)) (records df))"

text \<open>The cells of the column \<open>name\<close>, row by row (\<open>None\<close> where the row has no such cell).\<close>

definition column :: "'v dataframe \<Rightarrow> string \<Rightarrow> 'v option list" where
  "column df name = map (\<lambda>(i, r). map_of (zip (columns df) r) name) (records df)"

text \<open>
  \<^verbatim>\<open>df[names]\<close> with a list of labels: \<^verbatim>\<open>KeyError\<close> when a label is not a column,
  otherwise the named columns in the order of \<open>names\<close>.
\<close>

definition getitem_columns :: "'v dataframe \<Rightarrow> string list \<Rightarrow> error + 'v dataframe" where
  "getitem_columns df names =
     (case filter (\<lambda>n. n \<notin> set (columns df)) names of
        [] \<Rightarrow> Inr \<lparr>columns = names,
                  records = map (\<lambda>(i, r). (i, List.map_filter (map_of (zip (columns df) r)) names))
                                (records df)\<rparr>
      | missing \<Rightarrow> Inl (KeyError missing))"

text \<open>
  \<^verbatim>\<open>df.rename(columns=mapping)\<close>: a column whose name is a key of the mapping takes the
  key's value as its new name; the other columns keep their names.
\<close>

definition rename_columns :: "'v dataframe \<Rightarrow> (string \<times> string) list \<Rightarrow> 'v dataframe" where
  "rename_columns df mapping =
     df\<lparr>columns := map (\<lambda>c. case map_of mapping c of Some c' \<Rightarrow> c' | None \<Rightarrow> c) (columns df)\<rparr>"

text \<open>
  The \<^verbatim>\<open>columns\<close> argument of \<^verbatim>\<open>save_data\<close>: \<^verbatim>\<open>None\<close>, a dict (its items in
  insertion order, keys distinct), a list, or another iterable of names such as a tuple.
\<close>

datatype columns_arg =
    ColsNone
  | ColsDict "(string \<times> string) list"
  | ColsList "string list"
  | ColsTuple "string list"

fun truthy :: "columns_arg \<Rightarrow> bool" where
  "truthy ColsNone = False"
| "truthy (ColsDict items) = (items \<noteq> [])"
| "truthy (ColsList names) = (names \<noteq> [])"
| "truthy (ColsTuple names) = (names \<noteq> [])"

fun isinstance_dict :: "columns_arg \<Rightarrow> bool" where
  "isinstance_dict (ColsDict items) = True"
| "isinstance_dict _ = False"

fun isinstance_list :: "columns_arg \<Rightarrow> bool" where
  "isinstance_list (ColsList names) = True"
| "isinstance_list _ = False"

text \<open>\<^verbatim>\<open>list(columns)\<close> and \<^verbatim>\<open>columns.keys()\<close>: iterating a dict gives its keys.\<close>

fun dict_items :: "columns_arg \<Rightarrow> (string \<times> string) list" where
  "dict_items (ColsDict items) = items"
| "dict_items _ = []"

fun list_of :: "columns_arg \<Rightarrow> string list" where
  "list_of ColsNone = []"
| "list_of (ColsDict items) = map fst items"
| "list_of (ColsList names) = names"
| "list_of (ColsTuple names) = names"

text \<open>
  The file system as far as \<^verbatim>\<open>save_data\<close> touches it: the directories that exist and
  the files written (\<open>empty_fs\<close> has none of either). \<^verbatim>\<open>os.mkdir\<close> raises
  \<^verbatim>\<open>FileExistsError\<close> on an existing directory; other failures of the operating
  system are not modelled.
\<close>

record 'v filesystem =
  dirs :: "string set"
  files :: "string \<rightharpoonup> (string \<times> 'v) list list"

definition empty_fs :: "'v filesystem" where
  "empty_fs = \<lparr>dirs = {}, files = Map.empty\<rparr>"

definition os_mkdir :: "'v filesystem \<Rightarrow> string \<Rightarrow> error + 'v filesystem" where
  "os_mkdir fs directory =
     (if directory \<in> dirs fs then Inl FileExistsError
      else Inr (fs\<lparr>dirs := insert directory (dirs fs)\<rparr>))"

definition path_join :: "string \<Rightarrow> string \<Rightarrow> string" where
  "path_join a b =
     (if b \<noteq> [] \<and> hd b = CHR ''/'' then b
      else if a = [] \<or> last a = CHR ''/'' then a @ b
      else a @ ''/'' @ b)"

text \<open>
  \<^verbatim>\<open>df.to_json(path, orient='records')\<close> writes one object per row, from column name to
  cell, without the index; it raises \<^verbatim>\<open>ValueError\<close> when column names repeat.
\<close>

definition json_records :: "'v dataframe \<Rightarrow> (string \<times> 'v) list list" where
  "json_records df = map (\<lambda>(i, r). zip (columns df) r) (records df)"

definition to_json :: "'v filesystem \<Rightarrow> 'v dataframe \<Rightarrow> string \<Rightarrow> error + 'v filesystem" where
  "to_json fs df path =
     (if \<not> distinct (columns df)
      then Inl (ValueError ''DataFrame columns must be unique for orient=records.'')
      else Inr (fs\<lparr>files := (files fs)(path \<mapsto> json_records df)\<rparr>))"

text \<open>
  \<^verbatim>\<open>save_data(df, filename, directory, columns)\<close> returns the frame it wrote; the model
  returns the file system with it.
\<close>

definition select_columns :: "'v dataframe \<Rightarrow> columns_arg \<Rightarrow> error + 'v dataframe" where
  "select_columns df cols =
     (if truthy cols then
        (if \<not> isinstance_dict cols then
           (if \<not> isinstance_list cols then getitem_columns df (list_of cols)
            else Inr df)
         else
           (case getitem_columns df (map fst (dict_items cols)) of
              Inl e \<Rightarrow> Inl e
            | Inr df' \<Rightarrow> Inr (rename_columns df' (dict_items cols))))
      else Inr df)"

definition save_data ::
  "'v filesystem \<Rightarrow> 'v dataframe \<Rightarrow> string \<Rightarrow> string \<Rightarrow> columns_arg
     \<Rightarrow> error + ('v filesystem \<times> 'v dataframe)" where
  "save_data fs df filename directory cols =
     (case select_columns df cols of
        Inl e \<Rightarrow> Inl e
      | Inr df' \<Rightarrow>
          (case (case os_mkdir fs directory of
                   Inl FileExistsError \<Rightarrow> Inr fs
                 | Inl e \<Rightarrow> Inl e
                 | Inr fs' \<Rightarrow> Inr fs') of
             Inl e \<Rightarrow> Inl e
           | Inr fs' \<Rightarrow>
               (case to_json fs' df' (path_join directory filename) of
                  Inl e \<Rightarrow> Inl e
                | Inr fs'' \<Rightarrow> Inr (fs'', df'))))"

section \<open>Pipeline\<close>

text \<open>
  The names that \<^verbatim>\<open>geohelpers.py\<close> binds at its top level: its imports and its
  functions. \<^verbatim>\<open>gh.name\<close> raises \<^verbatim>\<open>AttributeError\<close> for any other name.
\<close>

definition geohelpers :: "string list" where
  "geohelpers =
     [''np'', ''pd'', ''gpd'', ''os'',
      ''_check_chunksize'', ''cartesian_product'', ''generate_key'',
      ''generate_points_from_coordinates'', ''_generate_smaller_grid'', ''generate_grid'',
      ''_chunker'', ''do_join'', ''locate_points'', ''save_data'', ''process_dataframe'']"

definition module_getattr :: "string list \<Rightarrow> string \<Rightarrow> error + string" where
  "module_getattr module name =
     (if name \<in> set module then Inr name else Inl (AttributeError name))"

text \<open>
  \<^verbatim>\<open>process_data(accuracy_m)\<close> of \<^verbatim>\<open>main.py\<close> down to the attribute lookup of its first
  \<^verbatim>\<open>gh.check_grid(points_grid)\<close>. \<open>load_raw_data\<close> is the outcome of reading the input
  files. The result \<open>Inr\<close> means that the run goes on: to the call of the function found
  and then to the join, save and extract stages.
\<close>

definition process_data ::
  "(error + 'd) \<Rightarrow> ('a \<Rightarrow> 'a \<Rightarrow> 'a \<Rightarrow> 'a list) \<Rightarrow> (int \<Rightarrow> 'a::{linorder,neg_numeral}) \<Rightarrow> pyval
     \<Rightarrow> error + (string \<times> ('a \<times> 'a) frame \<times> 'd)" where
  "process_data load_raw_data arange true_div accuracy_m =
     (case load_raw_data of
        Inl e \<Rightarrow> Inl e
      | Inr raw \<Rightarrow>
          (case generate_grid arange true_div [- 35, - 22] [16, 33] accuracy_m of
             Inl e \<Rightarrow> Inl e
           | Inr points_grid \<Rightarrow>
               (case module_getattr geohelpers ''check_grid'' of
                  Inl e \<Rightarrow> Inl e
                | Inr check_grid \<Rightarrow> Inr (check_grid, points_grid, raw))))"

section \<open>Integer coordinates for examples\<close>

text \<open>
  The examples below instantiate the coordinate type with \<open>int\<close>: \<^verbatim>\<open>np.arange\<close> on
  integers, for a step other than 0, lists \<open>start\<close>, \<open>start + step\<close>, ... below \<open>stop\<close>.
  With coordinates counted in units of 1/100000 degree, the step \<^verbatim>\<open>accuracy_m/100000\<close>
  degrees is \<open>accuracy_m\<close> units, so that \<open>true_div\<close> is \<open>id\<close>.
\<close>

definition arange_int :: "int \<Rightarrow> int \<Rightarrow> int \<Rightarrow> int list" where
  "arange_int start stop step =
     map (\<lambda>k. start + int k * step) [0..<nat (- ((start - stop) div step))]"

section \<open>GeoKey encoder\<close>

text \<open>
  \<^verbatim>\<open>generate_key\<close> computes on float64 columns. A finite double is a rational number
  (a 53-bit integer times a power of two), and every float operation used here returns
  the exact result rounded to the nearest double, ties to the even significand. So a
  double is modelled as the rational it denotes, and \<open>to_double\<close> is that rounding.
  Overflow, subnormal numbers, infinities and NaN are left out: the coordinates are far
  from them.
\<close>

type_synonym double = rat

text \<open>The number of binary digits of \<open>n\<close>.\<close>

fun bit_length :: "nat \<Rightarrow> nat" where
  "bit_length n = (if n = 0 then 0 else 1 + bit_length (n div 2))"

declare bit_length.simps [simp del]

text \<open>
  For \<open>q > 0\<close>, \<open>floor_log2 q\<close> is the exponent \<open>e\<close> with \<open>2 ^ e \<le> q < 2 ^ (e + 1)\<close>, and
  \<open>pow2 e\<close> is \<open>2 ^ e\<close> for an integer \<open>e\<close>.
\<close>

definition floor_log2 :: "rat \<Rightarrow> int" where
  "floor_log2 q =
     (if 1 \<le> q then int (bit_length (nat \<lfloor>q\<rfloor>)) - 1
      else - int (bit_length (nat (\<lceil>1 / q\<rceil> - 1))))"

definition pow2 :: "int \<Rightarrow> rat" where
  "pow2 e = (if 0 \<le> e then 2 ^ nat e else 1 / 2 ^ nat (- e))"

text \<open>\<^verbatim>\<open>np.rint\<close>: the nearest integer, ties to even.\<close>

definition rint :: "rat \<Rightarrow> int" where
  "rint q =
     (if q - of_int \<lfloor>q\<rfloor> < 1 / 2 then \<lfloor>q\<rfloor>
      else if 1 / 2 < q - of_int \<lfloor>q\<rfloor> then \<lfloor>q\<rfloor> + 1
      else if even \<lfloor>q\<rfloor> then \<lfloor>q\<rfloor> else \<lfloor>q\<rfloor> + 1)"

text \<open>
  Rounding to 53 significant bits: \<open>\<bar>q\<bar>\<close> is scaled into the range from \<open>2 ^ 52\<close> to
  \<open>2 ^ 53\<close>, rounded to an integer and scaled back.
\<close>

definition to_double :: "rat \<Rightarrow> double" where
  "to_double q =
     (if q = 0 then 0
      else sgn q * of_int (rint (\<bar>q\<bar> * pow2 (52 - floor_log2 \<bar>q\<bar>)))
             * pow2 (floor_log2 \<bar>q\<bar> - 52))"

text \<open>
  \<^verbatim>\<open>Series.round(decimals)\<close> is numpy's rounding: for \<open>decimals = 0\<close> it is \<^verbatim>\<open>rint\<close>,
  for positive \<open>decimals\<close> the column is multiplied by \<open>10 ^ decimals\<close>, rounded with
  \<^verbatim>\<open>rint\<close> and divided by \<open>10 ^ decimals\<close>, each a float operation.
\<close>

definition series_round :: "nat \<Rightarrow> double \<Rightarrow> double" where
  "series_round decimals x =
     (if decimals = 0 then of_int (rint x)
      else to_double (of_int (rint (to_double (x * 10 ^ decimals))) / 10 ^ decimals))"

text \<open>
  \<^verbatim>\<open>astype(int)\<close> on a float truncates towards zero; \<^verbatim>\<open>astype(str)\<close> on an integer
  gives its decimal digits, with a minus sign when negative.
\<close>

definition astype_int :: "double \<Rightarrow> int" where
  "astype_int x = (if 0 \<le> x then \<lfloor>x\<rfloor> else \<lceil>x\<rceil>)"

fun str_nat :: "nat \<Rightarrow> string" where
  "str_nat n =
     (if n < 10 then [''0123456789'' ! n]
      else str_nat (n div 10) @ [''0123456789'' ! (n mod 10)])"

declare str_nat.simps [simp del]

definition astype_str :: "int \<Rightarrow> string" where
  "astype_str i = (if i < 0 then ''-'' @ str_nat (nat (- i)) else str_nat (nat i))"

text \<open>
  \<^verbatim>\<open>round_level = int(5 - np.log10(accuracy_m))\<close>. For \<^verbatim>\<open>accuracy_m\<close> one of 1, 10, ...,
  100000, that is \<open>10 ^ x\<close> with \<open>x < 6\<close>, the logarithm is \<open>x\<close> (exactly 0 at 1, and taken
  as exact at the other powers of ten) and the level is \<open>5 - x\<close>. Other values, on which
  the result depends on the float logarithm, are not modelled: \<open>None\<close>.
\<close>

definition round_level :: "int \<Rightarrow> nat option" where
  "round_level accuracy_m = map_option (\<lambda>x. 5 - x) (find (\<lambda>x. 10 ^ x = accuracy_m) [0..<6])"

text \<open>
  The key of one row, from its rounded coordinates:
  \<^verbatim>\<open>(lat*100000).astype(int).astype(str) + ';' + (long*100000).astype(int).astype(str)\<close>.
\<close>

definition geokey_of :: "double \<Rightarrow> double \<Rightarrow> string" where
  "geokey_of lat long =
     astype_str (astype_int (to_double (lat * 100000))) @ '';''
       @ astype_str (astype_int (to_double (long * 100000)))"

text \<open>
  \<^verbatim>\<open>generate_key(df, accuracy_m)\<close> on a frame whose rows hold the latitude, the longitude
  and the other columns \<open>x\<close> (a previous \<^verbatim>\<open>geokey\<close> column is taken not to be among
  them): both coordinate columns are rounded and the key column is attached.
\<close>

definition generate_key ::
  "(double \<times> double \<times> 'x) frame \<Rightarrow> int \<Rightarrow> (double \<times> double \<times> 'x \<times> string) frame option" where
  "generate_key df accuracy_m =
     (case round_level accuracy_m of
        None \<Rightarrow> None
      | Some k \<Rightarrow>
          Some (map (\<lambda>(i, (lat, long, x)).
                  (i, (series_round k lat, series_round k long, x,
                       geokey_of (series_round k lat) (series_round k long)))) df))"

text \<open>The column \<^verbatim>\<open>df['geokey']\<close> of the keyed frame.\<close>

definition geokey_column :: "(double \<times> double \<times> 'x \<times> string) frame \<Rightarrow> string list" where
  "geokey_column df = map (\<lambda>(i, (lat, long, x, key)). key) df"

section \<open>Properties of the chunk size heuristic\<close>

lemma default_chunksize_range:
  "5000 \<le> default_chunksize n \<and> default_chunksize n \<le> 60000"
  by (simp add: default_chunksize_def)

lemma py_int_abc: "py_int (PStr ''abc'') = Inl (ValueError ''invalid literal for int() with base 10: abc'')"
  by (simp add: int_of_string_def strip_def is_space_def is_digit_def)

text \<open>
  Claim C7, as stated, at a malformed string: \<^verbatim>\<open>int("abc")\<close> raises \<^verbatim>\<open>ValueError\<close>,
  which \<^verbatim>\<open>except TypeError\<close> does not catch, so \<^verbatim>\<open>_check_chunksize("abc", 1000)\<close>
  raises instead of returning the adaptive default.
\<close>

theorem check_chunksize_malformed_string_raises:
  "check_chunksize (PStr ''abc'') 1000
     = Inl (ValueError ''invalid literal for int() with base 10: abc'')
   \<and> check_chunksize (PStr ''abc'') 1000 \<noteq> Inr (min (max (1000 div 50) 5000) 60000)"
  by (simp add: check_chunksize_def int_of_string_def strip_def is_space_def is_digit_def)

text \<open>
  Claim C7 (amended): for every dataset size \<open>N\<close>, when no chunksize is given
  (\<^verbatim>\<open>None\<close>), and likewise for every value on which \<^verbatim>\<open>int\<close> raises \<^verbatim>\<open>TypeError\<close>
  (such as a list), \<^verbatim>\<open>_check_chunksize\<close> returns, without raising, the adaptive default
  \<open>min (max (N div 50) 5000) 60000\<close>, which lies in the range 5000 to 60000.
\<close>

theorem check_chunksize_default:
  "check_chunksize PNone N = Inr (min (max (int N div 50) 5000) 60000)
   \<and> (py_int v = Inl TypeError \<longrightarrow>
        check_chunksize v N = Inr (min (max (int N div 50) 5000) 60000))
   \<and> 5000 \<le> min (max (int N div 50) 5000) (60000::int)
   \<and> min (max (int N div 50) 5000) (60000::int) \<le> 60000"
  by (simp add: check_chunksize_def default_chunksize_def)

theorem check_chunksize_default_witness:
  "py_int (PList [PInt 3]) = Inl TypeError
   \<and> check_chunksize (PList [PInt 3]) 1000000 = Inr 20000
   \<and> check_chunksize PNone 1000000 = Inr 20000"
  using check_chunksize_default [of 1000000 "PList [PInt 3]"] by simp

section \<open>Properties of the chunker\<close>

lemma keys_nat: "0 < c \<Longrightarrow> map (\<lambda>i. int i div c) [0..<n] = map (\<lambda>i. int (i div nat c)) [0..<n]"
  by (simp add: zdiv_int)

lemma div_eq_range: "0 < c \<Longrightarrow> {i::nat. i div c = g} = (+) (g * c) ` {..<c}"
proof (intro set_eqI iffI)
  fix i assume c: "0 < c" and "i \<in> {i. i div c = g}"
  then have g: "i div c = g" by simp
  have "i = g * c + i mod c" using g by (metis div_mult_mod_eq)
  moreover have "i mod c < c" using c by simp
  ultimately show "i \<in> (+) (g * c) ` {..<c}" by blast
next
  fix i assume c: "0 < c" and "i \<in> (+) (g * c) ` {..<c}"
  then obtain r where "r < c" "i = g * c + r" by auto
  then show "i \<in> {i. i div c = g}" by simp
qed

lemma group_rows:
  fixes df :: "'r frame"
  assumes "0 < c"
  shows "map snd (filter (\<lambda>(k, r). k = int g) (zip (map (\<lambda>i. int (i div c)) [0..<length df]) df))
         = take c (drop (g * c) df)"
proof -
  have "map snd (filter (\<lambda>(k, r). k = int g) (zip (map (\<lambda>i. int (i div c)) [0..<length df]) df))
        = nths df {i. i div c = g}"
    by (simp add: nths_def zip_map1 filter_map o_def zip_commute [of df] split_def)
  also have "\<dots> = nths df ((+) (g * c) ` {..<c})"
    using assms by (simp add: div_eq_range)
  also have "\<dots> = take c (drop (g * c) df)"
    by (simp add: nths_drop [symmetric] nths_upt_eq_take)
  finally show ?thesis .
qed

lemma key_set:
  fixes c n :: nat
  assumes "0 < c"
  shows "(\<lambda>i. i div c) ` {0..<n} = {0..<(n + c - 1) div c}"
proof (intro set_eqI iffI)
  fix g assume "g \<in> (\<lambda>i. i div c) ` {0..<n}"
  then obtain i where i: "i < n" "g = i div c" by auto
  have "i + c \<le> n + c - 1" using i assms by linarith
  then have "(i + c) div c \<le> (n + c - 1) div c" by (rule div_le_mono)
  moreover have "(i + c) div c = Suc (i div c)" using assms div_add_self2 [of c i] by simp
  ultimately show "g \<in> {0..<(n + c - 1) div c}" using i by simp
next
  fix g assume "g \<in> {0..<(n + c - 1) div c}"
  then have "Suc g \<le> (n + c - 1) div c" by simp
  then have "Suc g * c \<le> n + c - 1" using assms by (simp add: less_eq_div_iff_mult_less_eq)
  then have "g * c < n" using assms by simp
  moreover have "(g * c) div c = g" using assms by simp
  ultimately show "g \<in> (\<lambda>i. i div c) ` {0..<n}" by force
qed

lemma sorted_keys:
  fixes c n :: nat
  assumes "0 < c"
  shows "sort (remdups (map (\<lambda>i. int (i div c)) [0..<n])) = map int [0..<(n + c - 1) div c]"
proof -
  have "set (map (\<lambda>i. int (i div c)) [0..<n]) = set (map int [0..<(n + c - 1) div c])"
  proof -
    have "(\<lambda>x. int (x div c)) ` {0..<n} = int ` ((\<lambda>i. i div c) ` {0..<n})"
      by (simp add: image_image)
    then show ?thesis using key_set [OF assms, of n] by simp
  qed
  moreover have "sorted (map int [0..<(n + c - 1) div c])" 
    by (simp add: sorted_map)
  moreover have "distinct (map int [0..<(n + c - 1) div c])"
    by (simp add: distinct_map)
  ultimately show ?thesis
    by (metis sorted_list_of_set_sort_remdups sorted_list_of_set.idem_if_sorted_distinct)
qed

lemma chunker_pos:
  assumes "0 < c"
  shows "chunker df (Some c) =
           map (\<lambda>g. take (nat c) (drop (g * nat c) df)) [0..<(length df + nat c - 1) div nat c]"
  using assms
  by (simp add: chunker_def groupby_def keys_nat sorted_keys o_def group_rows)

lemma concat_chunks:
  "concat (map (\<lambda>g. take c (drop (g * c) df)) [0..<k]) = take (k * c) df"
proof (induction k)
  case 0
  then show ?case by simp
next
  case (Suc k)
  have "take (Suc k * c) df = take (k * c) df @ take c (drop (k * c) df)"
    using take_add [of "k * c" c df] by (simp add: add.commute)
  with Suc show ?case by simp
qed

text \<open>
  Claim C6: for a frame of \<open>N\<close> rows and a chunk size \<open>C > 0\<close>, \<^verbatim>\<open>_chunker\<close> returns
  the contiguous groups of rows by \<open>index div C\<close> (group \<open>g\<close> is the \<open>C\<close> rows from
  position \<open>g * C\<close> on, as far as they exist), every group has at most \<open>C\<close> rows, the
  group sizes sum to \<open>N\<close>, and the groups concatenated in order are the original frame,
  rows and labels in the original order.
\<close>

theorem chunker_contiguous_partition:
  assumes "0 < c"
  shows "chunker df (Some c)
           = map (\<lambda>g. take (nat c) (drop (g * nat c) df)) [0..<(length df + nat c - 1) div nat c]
       \<and> (\<forall>ch \<in> set (chunker df (Some c)). length ch \<le> nat c)
       \<and> sum_list (map length (chunker df (Some c))) = length df
       \<and> concat (chunker df (Some c)) = df"
proof -
  let ?m = "(length df + nat c - 1) div nat c"
  have c: "0 < nat c" using assms by simp
  have shape: "chunker df (Some c) = map (\<lambda>g. take (nat c) (drop (g * nat c) df)) [0..<?m]"
    by (rule chunker_pos [OF assms])
  have small: "\<forall>ch \<in> set (chunker df (Some c)). length ch \<le> nat c"
    unfolding shape by auto
  have "length df \<le> ?m * nat c"
  proof -
    have "length df + nat c - 1 < (?m + 1) * nat c"
      using c div_less_iff_less_mult [of "nat c" "length df + nat c - 1" "?m + 1"] by simp
    then show ?thesis using c by (cases "nat c") simp_all
  qed
  then have whole: "concat (chunker df (Some c)) = df"
    unfolding shape by (simp add: concat_chunks)
  have "sum_list (map length (chunker df (Some c))) = length (concat (chunker df (Some c)))"
    by (simp add: length_concat)
  with shape small whole show ?thesis by simp
qed

theorem chunker_contiguous_partition_witness:
  "(0::int) < 2
   \<and> chunker [(10, ''a''), (11, ''b''), (12, ''c''), (13, ''d''), (14, ''e'')] (Some 2)
       = [[(10, ''a''), (11, ''b'')], [(12, ''c''), (13, ''d'')], [(14, ''e'')]]"
  using chunker_contiguous_partition
          [of 2 "[(10, ''a''), (11, ''b''), (12, ''c''), (13, ''d''), (14, ''e'')]"]
  by (simp add: upt_rec)

section \<open>Properties of the spatial locator\<close>

lemma filter_key_partition:
  "finite K \<Longrightarrow> fst ` set zs \<subseteq> K \<Longrightarrow>
     (\<Sum>g\<in>K. mset (map h (filter (\<lambda>z. fst z = g) zs))) = mset (map h zs)"
proof (induction zs)
  case Nil
  then show ?case by simp
next
  case (Cons z zs)
  have "(\<Sum>g\<in>K. mset (map h (filter (\<lambda>z. fst z = g) (z # zs))))
        = (\<Sum>g\<in>K. (if fst z = g then {#h z#} else {#}) + mset (map h (filter (\<lambda>z. fst z = g) zs)))"
    by (rule sum.cong) auto
  also have "\<dots> = (\<Sum>g\<in>K. (if fst z = g then {#h z#} else {#}))
                  + (\<Sum>g\<in>K. mset (map h (filter (\<lambda>z. fst z = g) zs)))"
    by (simp add: sum.distrib)
  also have "(\<Sum>g\<in>K. (if fst z = g then {#h z#} else {#})) = {#h z#}"
    using Cons.prems by (simp add: sum.delta' flip: zero_multiset_def)
  finally show ?case using Cons by simp
qed

lemma groupby_partition:
  assumes "length keys = length df"
  shows "mset (concat (map snd (groupby df keys))) = mset df"
proof -
  let ?zs = "zip keys df"
  have "mset (concat (map snd (groupby df keys)))
        = (\<Sum>g\<leftarrow>sort (remdups keys). mset (map snd (filter (\<lambda>z. fst z = g) ?zs)))"
    by (simp add: groupby_def mset_concat o_def split_def)
  also have "\<dots> = (\<Sum>g\<in>set keys. mset (map snd (filter (\<lambda>z. fst z = g) ?zs)))"
  proof -
    have "distinct (sort (remdups keys))" by simp
    then show ?thesis
      using sum.distinct_set_conv_list
              [of "sort (remdups keys)" "\<lambda>g. mset (map snd (filter (\<lambda>z. fst z = g) ?zs))"]
      by (simp del: mset_map mset_filter)
  qed
  also have "\<dots> = mset (map snd ?zs)"
  proof (rule filter_key_partition)
    show "fst ` set ?zs \<subseteq> set keys" by (auto dest: set_zip_leftD)
  qed simp
  also have "\<dots> = mset df"
    using assms by simp
  finally show ?thesis .
qed

lemma chunker_partition_mset: "mset (concat (chunker df chunksize)) = mset df"
  by (simp add: chunker_def groupby_partition split: option.split)


lemma mset_concat_map_cong:
  assumes "mset xs = mset ys"
  shows "mset (concat (map h xs)) = mset (concat (map h ys))"
proof -
  have "mset (concat (map h zs)) = sum_mset (image_mset (\<lambda>z. mset (h z)) (mset zs))" for zs
    by (induction zs) simp_all
  then show ?thesis using assms by simp
qed

lemma sort_remdups_Nil_iff: "sort (remdups xs) = [] \<longleftrightarrow> xs = []"
  by (metis set_empty set_remdups set_sort)

lemma chunker_empty_iff: "chunker df (Some c) = [] \<longleftrightarrow> c \<noteq> 0 \<and> df = []"
  by (simp add: chunker_def groupby_def sort_remdups_Nil_iff)

lemma map_snd_reset_index: "map snd (reset_index df) = map snd df"
  by (simp add: reset_index_def DataFrame_def)

lemma length_reset_index: "length (reset_index df) = length df"
  by (simp add: reset_index_def DataFrame_def)

lemma map_fst_reset_index: "map fst (reset_index df) = map int [0..<length df]"
  by (simp add: reset_index_def DataFrame_def)

lemma chunked_join_mset:
  assumes arr: "\<And>xs. mset (arrange xs) = mset xs"
  shows "mset (concat (map (\<lambda>ch. do_join arrange within ch gs) (chunker ps chunksize)))
         = mset (do_join arrange within ps gs)"
proof -
  define h where "h = (\<lambda>(i :: int, p :: 'a).
        map (\<lambda>(j, g). (i, (p, j, g))) (filter (\<lambda>(j :: int, g :: 'b). within p g) gs))"
  have dj: "mset (do_join arrange within xs gs) = mset (concat (map h xs))" for xs
    by (simp add: do_join_def arr h_def)
  have "mset (concat (map (\<lambda>ch. do_join arrange within ch gs) chs))
        = mset (concat (map h (concat chs)))" for chs
    by (induction chs) (simp_all add: dj)
  then have "mset (concat (map (\<lambda>ch. do_join arrange within ch gs) (chunker ps chunksize)))
        = mset (concat (map h (concat (chunker ps chunksize))))" .
  also have "\<dots> = mset (concat (map h ps))"
    by (rule mset_concat_map_cong) (rule chunker_partition_mset)
  finally show ?thesis by (simp add: dj)
qed

lemma locate_points_result:
  assumes arr: "\<And>xs. mset (arrange xs) = mset xs"
      and cs: "check_chunksize chunksize (length points) = Inr c"
      and ne: "points \<noteq> [] \<or> c = 0"
  shows "\<exists>ret. locate_points arrange within points geometries chunksize = Inr ret
           \<and> mset (map snd ret) = mset (map snd (do_join arrange within points geometries))
           \<and> map fst ret = map int [0..<length ret]"
proof -
  let ?J = "map (\<lambda>ch. do_join arrange within ch geometries) (chunker points (Some c))"
  have "?J \<noteq> []" using ne by (auto simp: chunker_empty_iff)
  then have lp: "locate_points arrange within points geometries chunksize = Inr (reset_index (concat ?J))"
    by (simp add: locate_points_def cs pd_concat_def)
  have "mset (map snd (reset_index (concat ?J))) = image_mset snd (mset (concat ?J))"
    by (simp add: map_snd_reset_index)
  also have "\<dots> = image_mset snd (mset (do_join arrange within points geometries))"
    using chunked_join_mset [OF arr] by metis
  finally have rows: "mset (map snd (reset_index (concat ?J)))
                      = mset (map snd (do_join arrange within points geometries))"
    by simp
  have "map fst (reset_index (concat ?J)) = map int [0..<length (reset_index (concat ?J))]"
    by (simp add: map_fst_reset_index length_reset_index)
  with lp rows show ?thesis by blast
qed

lemma do_join_set:
  assumes arr: "\<And>xs. mset (arrange xs) = mset xs"
  shows "set (do_join arrange within ps gs)
         = {(i, p, j, g). (i, p) \<in> set ps \<and> (j, g) \<in> set gs \<and> within p g}"
proof -
  have "set (arrange xs) = set xs" for xs using arr by (metis set_mset_mset)
  then show ?thesis by (auto simp: do_join_def)
qed

text \<open>
  For a positive chunk size and a frame with at least one row, the chunked join returns,
  after the index reset, the rows of the single join of all points, each as often as
  there (in the library's row order, which \<open>arrange\<close> leaves open), under the labels
  0, 1, 2, ...
\<close>

lemma locate_points_matches_direct_join:
  assumes arr: "\<And>xs. mset (arrange xs) = mset xs" and c: "0 < c" and ne: "points \<noteq> []"
  shows "\<exists>ret. locate_points arrange within points geometries (PInt c) = Inr ret
           \<and> mset (map snd ret)
               = mset (map snd (reset_index (do_join arrange within points geometries)))
           \<and> map fst ret = map int [0..<length ret]"
  using locate_points_result [OF arr, of "PInt c" points c within geometries] ne
  by (simp add: check_chunksize_def map_snd_reset_index)

lemma locate_points_Inl:
  assumes "locate_points arrange within points geometries chunksize = Inl e"
  shows "check_chunksize chunksize (length points) = Inl e
         \<or> (points = [] \<and> e = ValueError ''No objects to concatenate'')"
  using assms
  by (auto simp: locate_points_def pd_concat_def chunker_empty_iff
           split: sum.splits if_splits)

text \<open>
  Claim C1, at the empty points dataset: with a positive chunk size (given, or the
  adaptive default) \<^verbatim>\<open>_chunker\<close> returns no chunk at all, the loop joins nothing and
  \<^verbatim>\<open>pd.concat([])\<close> raises \<^verbatim>\<open>ValueError\<close>, while the single join of the empty dataset
  is the empty result.
\<close>

theorem locate_points_empty_dataset_raises:
  "locate_points arrange within [] geometries (PInt 5000)
     = Inl (ValueError ''No objects to concatenate'')
   \<and> locate_points arrange within [] geometries PNone
     = Inl (ValueError ''No objects to concatenate'')
   \<and> reset_index (do_join (\<lambda>rows. rows) within [] geometries) = []"
  by (simp add: locate_points_def check_chunksize_def default_chunksize_def chunker_def
        groupby_def pd_concat_def do_join_def reset_index_def DataFrame_def)

text \<open>
  Claim C5: whenever \<^verbatim>\<open>locate_points\<close> returns, every row it returns is made of an
  input point's values and the label and values of a polygon that contains the point, and
  the input points that occur in the returned rows are exactly the input points within at
  least one polygon: points within no polygon are dropped. It returns for every dataset
  with at least one row and every chunk size that \<^verbatim>\<open>_check_chunksize\<close> accepts; when it
  raises, the chunk size was refused or the dataset is empty, so that no point is lost.
  The library's row order, \<open>arrange\<close>, may be any permutation of the matching pairs.
\<close>

theorem locate_points_contained:
  assumes "\<And>xs. mset (arrange xs) = mset xs"
  shows "case locate_points arrange within points geometries chunksize of
           Inr ret \<Rightarrow>
             (\<forall>(l, p, j, g) \<in> set ret. p \<in> snd ` set points \<and> (j, g) \<in> set geometries \<and> within p g)
             \<and> (\<forall>p \<in> snd ` set points.
                   p \<in> (\<lambda>(l, p, j, g). p) ` set ret \<longleftrightarrow> (\<exists>g \<in> snd ` set geometries. within p g))
         | Inl e \<Rightarrow> check_chunksize chunksize (length points) = Inl e \<or> points = []"
proof (cases "locate_points arrange within points geometries chunksize")
  case (Inl e)
  then show ?thesis using locate_points_Inl [OF Inl] by auto
next
  case (Inr ret)
  then obtain c where c: "check_chunksize chunksize (length points) = Inr c"
    by (auto simp: locate_points_def split: sum.splits)
  have "points \<noteq> [] \<or> c = 0"
    using Inr c by (auto simp: locate_points_def pd_concat_def chunker_def groupby_def split: if_splits)
  from locate_points_result [OF assms c this, of within geometries] Inr
  have "mset (map snd ret) = mset (map snd (do_join arrange within points geometries))"
    by simp
  then have "set (map snd ret) = set (map snd (do_join arrange within points geometries))"
    by (metis set_mset_mset)
  then have "snd ` set ret
             = snd ` {(i, p, j, g). (i, p) \<in> set points \<and> (j, g) \<in> set geometries \<and> within p g}"
    by (simp only: set_map do_join_set [OF assms])
  also have "\<dots> = {(p, j, g). \<exists>i. (i, p) \<in> set points \<and> (j, g) \<in> set geometries \<and> within p g}"
  proof (intro set_eqI iffI)
    fix x
    assume "x \<in> snd ` {(i, p, j, g). (i, p) \<in> set points \<and> (j, g) \<in> set geometries \<and> within p g}"
    then obtain i p j g where "x = (p, j, g)" "(i, p) \<in> set points" "(j, g) \<in> set geometries" "within p g"
      by auto
    then show "x \<in> {(p, j, g). \<exists>i. (i, p) \<in> set points \<and> (j, g) \<in> set geometries \<and> within p g}"
      by blast
  next
    fix x
    assume "x \<in> {(p, j, g). \<exists>i. (i, p) \<in> set points \<and> (j, g) \<in> set geometries \<and> within p g}"
    then obtain i p j g where x: "x = (p, j, g)" and "(i, p) \<in> set points" "(j, g) \<in> set geometries" "within p g"
      by auto
    then have "(i, p, j, g) \<in> {(i, p, j, g). (i, p) \<in> set points \<and> (j, g) \<in> set geometries \<and> within p g}"
      by simp
    then show "x \<in> snd ` {(i, p, j, g). (i, p) \<in> set points \<and> (j, g) \<in> set geometries \<and> within p g}"
      unfolding x by (rule image_eqI [rotated]) simp
  qed
  finally have rows: "snd ` set ret
                   = {(p, j, g). \<exists>i. (i, p) \<in> set points \<and> (j, g) \<in> set geometries \<and> within p g}" .
  have 1: "\<forall>(l, p, j, g) \<in> set ret. p \<in> snd ` set points \<and> (j, g) \<in> set geometries \<and> within p g"
  proof clarify
    fix l p j g assume "(l, p, j, g) \<in> set ret"
    then have "(p, j, g) \<in> snd ` set ret" by force
    then show "p \<in> snd ` set points \<and> (j, g) \<in> set geometries \<and> within p g"
      unfolding rows by force
  qed
  have 2: "p \<in> (\<lambda>(l, p, j, g). p) ` set ret \<longleftrightarrow> (\<exists>g \<in> snd ` set geometries. within p g)"
    if pin: "p \<in> snd ` set points" for p
  proof
    assume "p \<in> (\<lambda>(l, p, j, g). p) ` set ret"
    then obtain l j g where "(l, p, j, g) \<in> set ret" by auto
    with 1 show "\<exists>g \<in> snd ` set geometries. within p g" by force
  next
    assume "\<exists>g \<in> snd ` set geometries. within p g"
    then obtain j g where jg: "(j, g) \<in> set geometries" "within p g" by auto
    obtain i where "(i, p) \<in> set points" using pin by auto
    with jg have "(p, j, g) \<in> snd ` set ret" unfolding rows by blast
    then show "p \<in> (\<lambda>(l, p, j, g). p) ` set ret" by force
  qed
  from 1 2 show ?thesis by (simp add: Inr)
qed

theorem locate_points_contained_witness:
  "locate_points rev (\<lambda>p g. fst g \<le> p \<and> p \<le> snd g)
      [(7, 1), (8, 5), (9, 12 :: int)] [(0, (0, 6)), (1, (4, 8 :: int))] (PInt 2)
     = Inr [(0, 5, 1, 4, 8), (1, 5, 0, 0, 6), (2, 1, 0, 0, 6)]
   \<and> (12 :: int) \<notin> (\<lambda>(l, p, j, g). p) ` set [(0 :: int, 5, 1 :: int, 4 :: int, 8 :: int), (1, 5, 0, 0, 6), (2, 1, 0, 0, 6)]"
  using locate_points_contained [where arrange = rev
      and within = "\<lambda>p g. fst g \<le> p \<and> p \<le> snd g"
      and points = "[(7, 1), (8, 5), (9, 12 :: int)]"
      and geometries = "[(0, (0, 6)), (1, (4, 8 :: int))]" and chunksize = "PInt 2"]
  by (simp add: locate_points_def check_chunksize_def chunker_def groupby_def pd_concat_def
        do_join_def reset_index_def DataFrame_def upt_rec)

section \<open>Properties of the grid generator\<close>

lemma cartesian_product_nested:
  "cartesian_product lats longs = concat (map (\<lambda>lo. map (\<lambda>la. (la, lo)) lats) longs)"
proof -
  have "zip lats (replicate (length lats) lo) = map (\<lambda>la. (la, lo)) lats" for lo :: 'b
    by (induction lats) simp_all
  then have "concat (map (\<lambda>(xrow, yrow). zip xrow yrow)
                 (zip (replicate (length ys) lats) (map (\<lambda>y. replicate (length lats) y) ys)))
             = concat (map (\<lambda>lo. map (\<lambda>la. (la, lo)) lats) ys)" for ys :: "'b list"
    by (induction ys) simp_all
  then show ?thesis by (simp add: cartesian_product_def stack_last_def meshgrid_def)
qed

lemma cartesian_product_append2:
  "cartesian_product lats (a @ b) = cartesian_product lats a @ cartesian_product lats b"
  by (simp add: cartesian_product_nested)

lemma cartesian_product_concat2:
  "cartesian_product lats (concat parts) = concat (map (cartesian_product lats) parts)"
  by (induction parts) (simp_all add: cartesian_product_append2 cartesian_product_nested)

lemma mset_cartesian_product_append1:
  "mset (cartesian_product (a @ b) longs)
     = mset (cartesian_product a longs) + mset (cartesian_product b longs)"
  unfolding cartesian_product_nested by (induction longs) simp_all

lemma mset_cartesian_product_concat1:
  "mset (cartesian_product (concat parts) longs)
     = (\<Sum>p\<leftarrow>parts. mset (cartesian_product p longs))"
proof (induction parts)
  case Nil
  show ?case by (induction longs) (simp_all add: cartesian_product_nested)
next
  case (Cons p parts)
  then show ?case by (simp add: mset_cartesian_product_append1)
qed

lemma split_sizes_concat: "concat (split_sizes xs ss) = take (sum_list ss) xs"
  by (induction ss arbitrary: xs) (simp_all add: take_add)

lemma length_split_sizes: "length (split_sizes xs ss) = length ss"
  by (induction ss arbitrary: xs) simp_all

lemma array_split_sections:
  assumes "0 < n"
  shows "\<exists>parts. array_split xs n = Inr parts \<and> concat parts = xs \<and> length parts = n"
proof -
  let ?q = "length xs div n" and ?r = "length xs mod n"
  have "?r \<le> n" using assms by (simp add: less_imp_le)
  then have e1: "?r * ?q + (n - ?r) * ?q = n * ?q"
    by (metis add_mult_distrib le_add_diff_inverse)
  have e2: "?r + n * ?q = length xs" by simp
  have e3: "?r * (?q + 1) = ?r * ?q + ?r" by simp
  have "?r * (?q + 1) + (n - ?r) * ?q = length xs"
    using e1 e2 unfolding e3 by linarith
  then have "sum_list (replicate ?r (?q + 1) @ replicate (n - ?r) ?q) = length xs"
    by (simp add: sum_list_replicate)
  moreover have "?r \<le> n" using assms by (simp add: less_imp_le)
  ultimately show ?thesis
    using assms by (simp add: array_split_def split_sizes_concat length_split_sizes)
qed

lemma collect_all:
  assumes "\<forall>x \<in> set xs. \<exists>v. f x = Inr v \<and> Q x v"
  shows "\<exists>vs. collect (map f xs) = Inr vs \<and> list_all2 Q xs vs"
  using assms
proof (induction xs)
  case Nil
  then show ?case by simp
next
  case (Cons x xs)
  then obtain v vs where "f x = Inr v" "Q x v" "collect (map f xs) = Inr vs" "list_all2 Q xs vs"
    by auto
  then show ?case by simp
qed


lemma concat_frames_rows_mset1:
  assumes "list_all2 (\<lambda>p df. mset (map snd df) = mset (cartesian_product p longs)) parts dfs"
  shows "mset (map snd (concat dfs)) = mset (cartesian_product (concat parts) longs)"
  using assms
proof (induction rule: list_all2_induct)
  case Nil
  show ?case by (induction longs) (simp_all add: cartesian_product_nested)
next
  case (Cons p parts df dfs)
  then show ?case by (simp add: mset_cartesian_product_append1)
qed

lemma concat_frames_rows_mset2:
  assumes "list_all2 (\<lambda>p df. mset (map snd df) = mset (cartesian_product lats p)) parts dfs"
  shows "mset (map snd (concat dfs)) = mset (cartesian_product lats (concat parts))"
  using assms
  by (induction rule: list_all2_induct)
     (simp_all add: cartesian_product_append2, simp add: cartesian_product_nested)

lemma concat_frames_rows2:
  assumes "list_all2 (\<lambda>p df. map snd df = cartesian_product lats p) parts dfs"
  shows "map snd (concat dfs) = cartesian_product lats (concat parts)"
  using assms
  by (induction rule: list_all2_induct)
     (simp_all add: cartesian_product_append2, simp add: cartesian_product_nested)

lemma map_snd_DataFrame: "map snd (DataFrame rs) = rs"
  by (simp add: DataFrame_def)

lemma generate_smaller_grid_rows:
  "\<exists>df. generate_smaller_grid lats longs = Inr df
      \<and> mset (map snd df) = mset (cartesian_product lats longs)
      \<and> (length lats < 1500 \<longrightarrow> map snd df = cartesian_product lats longs)"
proof (induction lats longs rule: generate_smaller_grid.induct)
  case (1 lats longs)
  show ?case
  proof (cases "max (length lats) (length longs) \<ge> 1500")
    case False
    then show ?thesis
      by (subst generate_smaller_grid.simps) (simp add: map_snd_DataFrame del: mset_map)
  next
    case big: True
    show ?thesis
    proof (cases "length lats > length longs")
      case True
      with big have n: "0 < length lats div 100" and long: "\<not> length lats < 1500" by auto
      from array_split_sections [OF n, of lats]
      obtain parts where parts: "array_split lats (length lats div 100) = Inr parts"
        "concat parts = lats" "length parts = length lats div 100" by blast
      have "\<forall>lat \<in> set parts. \<exists>df. generate_smaller_grid lat longs = Inr df
              \<and> mset (map snd df) = mset (cartesian_product lat longs)"
        using "1.IH"(1) [OF big True parts(1)] by blast
      from collect_all [OF this]
      obtain dfs where dfs: "collect (map (\<lambda>lat. generate_smaller_grid lat longs) parts) = Inr dfs"
        "list_all2 (\<lambda>p df. mset (map snd df) = mset (cartesian_product p longs)) parts dfs"
        by blast
      have "dfs \<noteq> []" using dfs(2) parts(3) n by (auto dest: list_all2_lengthD)
      moreover have "generate_smaller_grid lats longs
          = (case collect (map (\<lambda>lat. generate_smaller_grid lat longs) parts) of
               Inl e \<Rightarrow> Inl e | Inr dfs \<Rightarrow> pd_concat dfs)"
        using big True parts(1) by (subst generate_smaller_grid.simps) simp
      ultimately have "generate_smaller_grid lats longs = Inr (concat dfs)"
        using dfs(1) by (simp add: pd_concat_def)
      moreover have "mset (map snd (concat dfs)) = mset (cartesian_product lats longs)"
        using concat_frames_rows_mset1 [OF dfs(2)] parts(2) by simp
      ultimately show ?thesis using long by simp
    next
      case False
      with big have n: "0 < length longs div 100" by auto
      from array_split_sections [OF n, of longs]
      obtain parts where parts: "array_split longs (length longs div 100) = Inr parts"
        "concat parts = longs" "length parts = length longs div 100" by blast
      have "\<forall>lon \<in> set parts. \<exists>df. generate_smaller_grid lats lon = Inr df
              \<and> (mset (map snd df) = mset (cartesian_product lats lon)
                 \<and> (length lats < 1500 \<longrightarrow> map snd df = cartesian_product lats lon))"
        using "1.IH"(2) [OF big False parts(1)] by blast
      from collect_all [OF this]
      obtain dfs where dfs: "collect (map (\<lambda>lon. generate_smaller_grid lats lon) parts) = Inr dfs"
        "list_all2 (\<lambda>p df. mset (map snd df) = mset (cartesian_product lats p)
                  \<and> (length lats < 1500 \<longrightarrow> map snd df = cartesian_product lats p)) parts dfs"
        by blast
      have "dfs \<noteq> []" using dfs(2) parts(3) n by (auto dest: list_all2_lengthD)
      moreover have "generate_smaller_grid lats longs
          = (case collect (map (\<lambda>lon. generate_smaller_grid lats lon) parts) of
               Inl e \<Rightarrow> Inl e | Inr dfs \<Rightarrow> pd_concat dfs)"
        using big False parts(1) by (subst generate_smaller_grid.simps) simp
      ultimately have "generate_smaller_grid lats longs = Inr (concat dfs)"
        using dfs(1) by (simp add: pd_concat_def)
      moreover have "mset (map snd (concat dfs)) = mset (cartesian_product lats longs)"
        using concat_frames_rows_mset2 [of lats parts dfs] dfs(2) parts(2)
        by (simp add: list_all2_conv_all_nth)
      moreover have "map snd (concat dfs) = cartesian_product lats longs" if "length lats < 1500"
        using concat_frames_rows2 [of lats parts dfs] dfs(2) parts(2) that
        by (simp add: list_all2_conv_all_nth)
      ultimately show ?thesis by simp
    qed
  qed
qed

lemma collect_map_Inr: "collect (map (\<lambda>x. Inr (f x)) xs) = Inr (map f xs)"
  by (induction xs) simp_all

lemma split_sizes_bound:
  "p \<in> set (split_sizes xs ss) \<Longrightarrow> \<exists>s\<in>set ss. length p \<le> s"
  by (induction ss arbitrary: xs) auto

lemma generate_smaller_grid_split_lats:
  assumes big: "1500 \<le> length lats" and lt: "length longs < length lats"
      and short: "length longs < 1500"
      and parts: "array_split lats (length lats div 100) = Inr parts"
  shows "map_sum id (map snd) (generate_smaller_grid lats longs)
         = Inr (concat (map (\<lambda>p. cartesian_product p longs) parts))"
proof -
  let ?n = "length lats div 100"
  have n: "15 \<le> ?n" using big by simp
  have small: "length p < 1500" if "p \<in> set parts" for p
  proof -
    have "p \<in> set (split_sizes lats
             (replicate (length lats mod ?n) (length lats div ?n + 1)
              @ replicate (?n - length lats mod ?n) (length lats div ?n)))"
      using parts that n by (auto simp: array_split_def split: if_splits)
    from split_sizes_bound [OF this] have "length p \<le> length lats div ?n + 1"
      by (auto split: if_splits)
    moreover have "length lats < 107 * ?n" using n by simp
    then have "length lats div ?n < 107"
      using n by (simp add: div_less_iff_less_mult)
    ultimately show ?thesis by simp
  qed
  have "map (\<lambda>lat. generate_smaller_grid lat longs) parts
        = map (\<lambda>lat. Inr (DataFrame (cartesian_product lat longs))) parts"
  proof (rule map_cong [OF refl])
    fix p assume "p \<in> set parts"
    from small [OF this] short
    show "generate_smaller_grid p longs = Inr (DataFrame (cartesian_product p longs))"
      by (subst generate_smaller_grid.simps) simp
  qed
  then have coll: "collect (map (\<lambda>lat. generate_smaller_grid lat longs) parts)
        = Inr (map (\<lambda>lat. DataFrame (cartesian_product lat longs)) parts)"
    by (simp only: collect_map_Inr)
  have "parts \<noteq> []"
    using array_split_sections [of ?n lats] parts n by auto
  moreover have "generate_smaller_grid lats longs
          = (case collect (map (\<lambda>lat. generate_smaller_grid lat longs) parts) of
               Inl e \<Rightarrow> Inl e | Inr dfs \<Rightarrow> pd_concat dfs)"
    using big lt parts by (subst generate_smaller_grid.simps) simp
  ultimately have "generate_smaller_grid lats longs
          = Inr (concat (map (\<lambda>lat. DataFrame (cartesian_product lat longs)) parts))"
    by (simp add: coll pd_concat_def)
  then show ?thesis
    by (simp add: map_concat o_def map_snd_DataFrame)
qed

lemma split_1500:
  "array_split [0..<1500] (length [0..<1500] div 100)
     = Inr (take 100 [0..<1500] # split_sizes (drop 100 [0..<1500]) (replicate 14 100))"
proof -
  have "replicate 15 (100::nat) = 100 # replicate 14 100"
    by (simp add: numeral_eq_Suc)
  then show ?thesis by (simp add: array_split_def del: upt_rec_numeral take_upt drop_upt)
qed

text \<open>
  Claim C3, as stated, at concrete arrays. For latitudes 1, 2 and longitudes 10, 20 the
  table lists (1, 10), (2, 10), (1, 20), (2, 20): the latitude runs fastest, which is not
  the nested iteration over latitude (outer) then longitude (inner), \<open>List.product\<close>.
  For 1500 latitudes and two longitudes the latitude axis is split into sections of 100,
  and the rows of the recursive construction are not in the order of the direct product:
  row 100 is (0, 1) in the one and (100, 0) in the other.
\<close>

theorem generate_smaller_grid_order_counterexample:
  "map_sum id (map snd) (generate_smaller_grid [1, 2 :: int] [10, 20 :: int])
     = Inr [(1, 10), (2, 10), (1, 20), (2, 20)]
   \<and> map_sum id (map snd) (generate_smaller_grid [1, 2 :: int] [10, 20 :: int])
     \<noteq> Inr (List.product [1, 2] [10, 20])
   \<and> map_sum id (map snd) (generate_smaller_grid [0..<1500] [0, 1 :: nat])
     \<noteq> Inr (cartesian_product [0..<1500] [0, 1])"
proof -
  have small: "map_sum id (map snd) (generate_smaller_grid [1, 2 :: int] [10, 20 :: int])
     = Inr [(1, 10), (2, 10), (1, 20), (2, 20)]"
    by (subst generate_smaller_grid.simps)
       (simp add: DataFrame_def cartesian_product_def stack_last_def meshgrid_def upt_rec)
  let ?L = "[0..<1500]" and ?K = "[0, 1 :: nat]"
  let ?rest = "concat (map (\<lambda>p. cartesian_product p ?K)
                   (split_sizes (drop 100 ?L) (replicate 14 100)))"
  have rec: "map_sum id (map snd) (generate_smaller_grid ?L ?K)
      = Inr (cartesian_product (take 100 ?L) ?K @ ?rest)"
    using generate_smaller_grid_split_lats [OF _ _ _ split_1500, of ?K] by simp
  have "(cartesian_product (take 100 ?L) ?K @ ?rest) ! 100 = (0, 1)"
    by (simp add: cartesian_product_nested nth_append del: upt_rec_numeral)
  moreover have "cartesian_product ?L ?K ! 100 = (100, 0)"
    by (simp add: cartesian_product_nested nth_append del: upt_rec_numeral)
  ultimately have "cartesian_product (take 100 ?L) ?K @ ?rest \<noteq> cartesian_product ?L ?K"
    by (metis Pair_inject zero_neq_one)
  with small rec show ?thesis by simp
qed

text \<open>
  Claim C3 (amended): for every latitude array and longitude array the recursive
  construction returns a table with exactly the rows of the direct cartesian product,
  each as often as there, and in the same order whenever the latitude array has fewer than
  1500 elements (then only the longitude axis is ever split). The row order of the direct
  product is nested iteration over longitude (outer) then latitude (inner).
\<close>

theorem generate_smaller_grid_same_rows:
  "\<exists>df. generate_smaller_grid lats longs = Inr df
      \<and> mset (map snd df) = mset (cartesian_product lats longs)
      \<and> (length lats < 1500 \<longrightarrow> map snd df = cartesian_product lats longs)
      \<and> cartesian_product lats longs = concat (map (\<lambda>lo. map (\<lambda>la. (la, lo)) lats) longs)"
  using generate_smaller_grid_rows [of lats longs] cartesian_product_nested [of lats longs]
  by blast

theorem generate_smaller_grid_same_rows_witness:
  "length [0 :: nat, 1] < 1500
   \<and> (\<exists>df. generate_smaller_grid [0 :: nat, 1] (replicate 800 (5 :: nat) @ replicate 800 6) = Inr df
         \<and> map snd df = cartesian_product [0, 1] (replicate 800 5 @ replicate 800 6))"
proof -
  let ?lats = "[0 :: nat, 1]" and ?longs = "replicate 800 (5 :: nat) @ replicate 800 6"
  have h: "length ?lats < 1500" by simp
  obtain df where "generate_smaller_grid ?lats ?longs = Inr df"
    and "length ?lats < 1500 \<longrightarrow> map snd df = cartesian_product ?lats ?longs"
    using generate_smaller_grid_same_rows [of ?lats ?longs] by blast
  with h show ?thesis by blast
qed

subsection \<open>Validation of the accuracy\<close>

lemma accuracy_values: "set (map (\<lambda>x. 10 ^ x) [0..<6]) = {1, 10, 100, 1000, 10000, 100000 :: int}"
  by (simp add: upt_rec) 

lemma validate_accuracy_eq:
  "validate_accuracy v =
     (case py_int v of
        Inr a \<Rightarrow> if a \<in> {1, 10, 100, 1000, 10000, 100000} then Inr a
                 else Inl (ValueError ''accuracy_m must be one of these values: (1,10,100,1000,10000,100000)'')
      | Inl e \<Rightarrow> Inl (ValueError ''accuracy_m must be one of these values: (1,10,100,1000,10000,100000)''))"
  unfolding validate_accuracy_def accuracy_try_block_def accuracy_values
  by (simp split: sum.split)

lemma grid_construction_returns:
  assumes "lats \<noteq> []" "longs \<noteq> []"
  shows "\<exists>grid. grid_construction arange steps lats longs = Inr grid"
proof -
  obtain df where "generate_smaller_grid
      (arange (fold min (tl lats) (hd lats)) (fold max (tl lats) (hd lats)) steps)
      (arange (fold min (tl longs) (hd longs)) (fold max (tl longs) (hd longs)) steps) = Inr df"
    using generate_smaller_grid_rows by blast
  then show ?thesis using assms
    by (cases lats; cases longs) (simp_all add: grid_construction_def np_min_def np_max_def)
qed

lemma generate_grid_valid:
  assumes "py_int accuracy_m = Inr a" "a \<in> {1, 10, 100, 1000, 10000, 100000}"
  shows "generate_grid arange true_div lats longs accuracy_m
           = grid_construction arange (true_div a) lats longs"
proof -
  have "validate_accuracy accuracy_m = Inr a"
    using assms by (simp add: validate_accuracy_eq)
  then show ?thesis by (simp add: generate_grid_def)
qed

lemma generate_grid_returns:
  assumes "py_int accuracy_m = Inr a" "a \<in> {1, 10, 100, 1000, 10000, 100000}"
      and "lats \<noteq> []" "longs \<noteq> []"
  shows "\<exists>grid. generate_grid arange true_div lats longs accuracy_m = Inr grid"
  using generate_grid_valid [OF assms(1,2), of arange true_div lats longs]
        grid_construction_returns [OF assms(3,4), of arange "true_div a"]
  by simp

lemma generate_grid_invalid:
  assumes "\<forall>b. py_int accuracy_m = Inr b \<longrightarrow> b \<notin> {1, 10, 100, 1000, 10000, 100000}"
  shows "generate_grid arange true_div lats longs accuracy_m
           = Inl (ValueError ''accuracy_m must be one of these values: (1,10,100,1000,10000,100000)'')"
proof -
  have "validate_accuracy accuracy_m
     = Inl (ValueError ''accuracy_m must be one of these values: (1,10,100,1000,10000,100000)'')"
    using assms by (simp add: validate_accuracy_eq split: sum.split)
  then show ?thesis by (simp add: generate_grid_def)
qed

lemma py_int_1000: "py_int (PStr ''1000'') = Inr 1000"
  by (simp add: int_of_string_def strip_def is_space_def is_digit_def digit_val_def)

lemma arange_int_0_2000: "arange_int 0 2000 1000 = [0, 1000]"
  by (simp add: arange_int_def upt_rec)

lemma arange_int_0_3000: "arange_int 0 3000 1000 = [0, 1000, 2000]"
  by (simp add: arange_int_def upt_rec)

text \<open>
  Claim C4, as stated, at the string \<^verbatim>\<open>"1000"\<close>: it is none of the six integers, yet
  \<^verbatim>\<open>int("1000")\<close> is 1000, the validation passes and the grid is constructed.
\<close>

theorem generate_grid_accepts_string:
  "PStr ''1000'' \<notin> PInt ` {1, 10, 100, 1000, 10000, 100000}
   \<and> generate_grid arange_int id [0, 2000] [0, 3000] (PStr ''1000'')
       = Inr [(0, (0, 0)), (1, (1000, 0)), (2, (0, 1000)), (3, (1000, 1000)),
              (4, (0, 2000)), (5, (1000, 2000))]"
proof -
  have "generate_smaller_grid [0, 1000 :: int] [0, 1000, 2000 :: int]
      = Inr [(0, (0, 0)), (1, (1000, 0)), (2, (0, 1000)), (3, (1000, 1000)),
             (4, (0, 2000)), (5, (1000, 2000))]"
    by (subst generate_smaller_grid.simps)
       (simp add: DataFrame_def cartesian_product_nested upt_rec)
  then have "grid_construction arange_int 1000 [0, 2000] [0, 3000]
       = Inr [(0, (0, 0)), (1, (1000, 0)), (2, (0, 1000)), (3, (1000, 1000)),
              (4, (0, 2000)), (5, (1000, 2000))]"
    by (simp add: grid_construction_def np_min_def np_max_def
          arange_int_0_2000 arange_int_0_3000 reset_index_def DataFrame_def upt_rec)
  then have "generate_grid arange_int id [0, 2000] [0, 3000] (PStr ''1000'')
       = Inr [(0, (0, 0)), (1, (1000, 0)), (2, (0, 1000)), (3, (1000, 1000)),
              (4, (0, 2000)), (5, (1000, 2000))]"
    using generate_grid_valid [OF py_int_1000, of arange_int id "[0, 2000]" "[0, 3000]"]
    by simp
  then show ?thesis by auto
qed

text \<open>
  Claim C4 (amended): for every \<^verbatim>\<open>accuracy_m\<close> whose conversion \<^verbatim>\<open>int(accuracy_m)\<close> is one
  of 1, 10, 100, 1000, 10000, 100000 (each of these integers, and also a string such as
  \<^verbatim>\<open>"1000"\<close>) \<^verbatim>\<open>generate_grid\<close> passes the validation and performs the grid
  construction, which returns a grid whenever both ranges are non-empty; for every other
  value it fails, before any grid construction, with the \<^verbatim>\<open>ValueError\<close> that names the
  allowed values.
\<close>

theorem generate_grid_validation:
  "(py_int accuracy_m = Inr a \<and> a \<in> {1, 10, 100, 1000, 10000, 100000}
      \<longrightarrow> generate_grid arange true_div lats longs accuracy_m
            = grid_construction arange (true_div a) lats longs
          \<and> (lats \<noteq> [] \<and> longs \<noteq> []
               \<longrightarrow> (\<exists>grid. generate_grid arange true_div lats longs accuracy_m = Inr grid)))
   \<and> ((\<forall>b. py_int accuracy_m = Inr b \<longrightarrow> b \<notin> {1, 10, 100, 1000, 10000, 100000})
      \<longrightarrow> generate_grid arange true_div lats longs accuracy_m
            = Inl (ValueError ''accuracy_m must be one of these values: (1,10,100,1000,10000,100000)''))"
  using generate_grid_valid [of accuracy_m a arange true_div lats longs]
        generate_grid_returns [of accuracy_m a lats longs arange true_div]
        generate_grid_invalid [of accuracy_m arange true_div lats longs]
  by blast

theorem generate_grid_validation_witness:
  "py_int (PInt 1000) = Inr 1000
   \<and> (\<exists>grid. generate_grid arange_int id [0, 2000] [0, 3000] (PInt 1000) = Inr grid)
   \<and> generate_grid arange_int id [0, 2000] [0, 3000] (PInt 5)
       = Inl (ValueError ''accuracy_m must be one of these values: (1,10,100,1000,10000,100000)'')"
proof -
  have ok: "py_int (PInt 1000) = Inr 1000 \<and> (1000 :: int) \<in> {1, 10, 100, 1000, 10000, 100000}"
    by simp
  have ne: "[0, 2000 :: int] \<noteq> [] \<and> [0, 3000 :: int] \<noteq> []" by simp
  have bad: "\<forall>b. py_int (PInt 5) = Inr b \<longrightarrow> b \<notin> {1, 10, 100, 1000, 10000, 100000}"
    by simp
  from generate_grid_validation [of "PInt 1000" 1000 arange_int id "[0, 2000]" "[0, 3000]"] ok ne
  have "\<exists>grid. generate_grid arange_int id [0, 2000] [0, 3000] (PInt 1000) = Inr grid"
    by blast
  moreover from generate_grid_validation [of "PInt 5" 5 arange_int id "[0, 2000]" "[0, 3000]"] bad
  have "generate_grid arange_int id [0, 2000] [0, 3000] (PInt 5)
       = Inl (ValueError ''accuracy_m must be one of these values: (1,10,100,1000,10000,100000)'')"
    by blast
  ultimately show ?thesis using ok by blast
qed

section \<open>Properties of the pipeline\<close>

lemma check_grid_undefined:
  "module_getattr geohelpers ''check_grid'' = Inl (AttributeError ''check_grid'')"
  by (simp add: module_getattr_def geohelpers_def)

text \<open>
  Claim C9, as stated, at \<^verbatim>\<open>accuracy_m = 5\<close> with input files that load: the validation
  of \<^verbatim>\<open>generate_grid\<close> raises \<^verbatim>\<open>ValueError\<close>, so the run ends before the
  \<^verbatim>\<open>gh.check_grid\<close> call and the exception is not an attribute error.
\<close>

theorem process_data_invalid_accuracy_raises_value_error:
  "process_data (Inr ()) arange_int id (PInt 5)
     = Inl (ValueError ''accuracy_m must be one of these values: (1,10,100,1000,10000,100000)'')
   \<and> process_data (Inr ()) arange_int id (PInt 5) \<noteq> Inl (AttributeError ''check_grid'')"
proof -
  have "\<forall>b. py_int (PInt 5) = Inr b \<longrightarrow> b \<notin> {1, 10, 100, 1000, 10000, 100000}"
    by simp
  from generate_grid_invalid [OF this, of arange_int id "[- 35, - 22]" "[16, 33]"]
  show ?thesis by (simp add: process_data_def)
qed

text \<open>
  Claim C9 (amended): in every input configuration \<^verbatim>\<open>process_data\<close> ends with an
  exception and never goes on to the join, save or extract stages; whenever the input
  files load and \<^verbatim>\<open>accuracy_m\<close> passes the validation of \<^verbatim>\<open>generate_grid\<close>, the exception
  is the attribute error of \<^verbatim>\<open>gh.check_grid\<close>, raised right after the grid generation,
  because \<^verbatim>\<open>geohelpers\<close> defines no \<^verbatim>\<open>check_grid\<close>.
\<close>

theorem process_data_stops_at_check_grid:
  "(\<exists>e. process_data load_raw_data arange true_div accuracy_m = Inl e)
   \<and> (load_raw_data = Inr raw \<and> py_int accuracy_m = Inr a
        \<and> a \<in> {1, 10, 100, 1000, 10000, 100000}
      \<longrightarrow> process_data load_raw_data arange true_div accuracy_m
            = Inl (AttributeError ''check_grid''))"
proof (intro conjI impI)
  show "\<exists>e. process_data load_raw_data arange true_div accuracy_m = Inl e"
    by (simp add: process_data_def check_grid_undefined split: sum.split)
next
  assume h: "load_raw_data = Inr raw \<and> py_int accuracy_m = Inr a
        \<and> a \<in> {1, 10, 100, 1000, 10000, 100000}"
  have "\<exists>grid. generate_grid arange true_div [- 35, - 22] [16, 33] accuracy_m = Inr grid"
    by (rule generate_grid_returns [of accuracy_m a]) (use h in simp_all)
  then obtain grid where
    "generate_grid arange true_div [- 35, - 22] [16, 33] accuracy_m = Inr grid" ..
  with h show "process_data load_raw_data arange true_div accuracy_m
            = Inl (AttributeError ''check_grid'')"
    by (simp add: process_data_def check_grid_undefined)
qed

theorem process_data_stops_at_check_grid_witness:
  "py_int (PInt 1000) = Inr 1000
   \<and> process_data (Inr ()) arange_int id (PInt 1000) = Inl (AttributeError ''check_grid'')"
  using process_data_stops_at_check_grid [of "Inr ()" arange_int id "PInt 1000" "()" 1000]
  by simp

section \<open>Properties of saving\<close>

lemma map_filter_all_Some:
  "\<forall>k \<in> set ks. f k \<noteq> None \<Longrightarrow> List.map_filter f ks = map (\<lambda>k. the (f k)) ks"
  by (induction ks) (auto simp: List.map_filter_simps)

lemma map_of_renamed:
  assumes "distinct (map snd items)" "(k, v) \<in> set items"
  shows "map_of (zip (map snd items) (map g (map fst items))) v = Some (g k)"
proof -
  have z: "zip (map snd items) (map g (map fst items)) = map (\<lambda>(k, v). (v, g k)) items"
    by (induction items) auto
  have "distinct (map fst (map (\<lambda>(k, v). (v, g k)) items))"
    using assms(1) by (simp add: o_def split_def)
  moreover have "(v, g k) \<in> set (map (\<lambda>(k, v). (v, g k)) items)"
    using assms(2) by force
  ultimately show ?thesis unfolding z by (simp only: map_of_eq_Some_iff)
qed

lemma renamed_names:
  assumes "distinct (map fst items)"
  shows "map (\<lambda>c. case map_of items c of Some c' \<Rightarrow> c' | None \<Rightarrow> c) (map fst items) = map snd items"
proof -
  have "map_of items (fst x) = Some (snd x)" if "x \<in> set items" for x
    using assms that by (cases x) simp
  then show ?thesis by (simp add: o_def)
qed

lemma getitem_columns_ok:
  assumes "set names \<subseteq> set (columns df)"
  shows "getitem_columns df names
         = Inr \<lparr>columns = names,
                records = map (\<lambda>(i, r). (i, List.map_filter (map_of (zip (columns df) r)) names))
                              (records df)\<rparr>"
proof -
  have "filter (\<lambda>n. n \<notin> set (columns df)) names = []"
    using assms by (auto simp: filter_empty_conv)
  then show ?thesis by (simp add: getitem_columns_def)
qed

lemma getitem_columns_missing:
  assumes "\<not> set names \<subseteq> set (columns df)"
  shows "getitem_columns df names = Inl (KeyError (filter (\<lambda>n. n \<notin> set (columns df)) names))"
proof -
  have "filter (\<lambda>n. n \<notin> set (columns df)) names \<noteq> []"
    using assms by (auto simp: filter_empty_conv)
  then show ?thesis by (simp add: getitem_columns_def split: list.split)
qed

lemma mkdir_or_exists:
  "(case os_mkdir fs directory of
      Inl FileExistsError \<Rightarrow> Inr fs
    | Inl e \<Rightarrow> Inl e
    | Inr fs' \<Rightarrow> Inr fs') = Inr (fs\<lparr>dirs := insert directory (dirs fs)\<rparr>)"
  by (simp add: os_mkdir_def insert_absorb)

lemma save_data_selected:
  assumes "select_columns df cols = Inr out" "distinct (columns out)"
  shows "save_data fs df filename directory cols
         = Inr (fs\<lparr>dirs := insert directory (dirs fs),
                    files := (files fs)(path_join directory filename \<mapsto> json_records out)\<rparr>, out)"
  using assms by (simp add: save_data_def mkdir_or_exists to_json_def)


lemma select_columns_dict:
  assumes ne: "items \<noteq> []" and keys: "distinct (map fst items)"
      and sub: "set (map fst items) \<subseteq> set (columns df)"
  shows "select_columns df (ColsDict items)
         = Inr \<lparr>columns = map snd items,
                records = map (\<lambda>(i, r). (i, List.map_filter (map_of (zip (columns df) r)) (map fst items)))
                              (records df)\<rparr>"
  using ne renamed_names [OF keys]
  by (simp add: select_columns_def getitem_columns_ok [OF sub] rename_columns_def)

lemma select_columns_dict_missing:
  assumes ne: "items \<noteq> []" and sub: "\<not> set (map fst items) \<subseteq> set (columns df)"
  shows "select_columns df (ColsDict items)
         = Inl (KeyError (filter (\<lambda>k. k \<notin> set (columns df)) (map fst items)))"
  using ne by (simp add: select_columns_def getitem_columns_missing [OF sub])

text \<open>
  Claim C2, as stated, at the mapping of the scenario. On a frame with the columns
  \<^verbatim>\<open>source_col1\<close> and \<^verbatim>\<open>source_col2\<close> the keys \<^verbatim>\<open>a\<close> and \<^verbatim>\<open>b\<close> are looked up as
  columns and \<^verbatim>\<open>save_data\<close> raises \<^verbatim>\<open>KeyError\<close>. On a frame that also has columns
  \<^verbatim>\<open>a\<close> and \<^verbatim>\<open>b\<close> the output has the columns \<^verbatim>\<open>source_col1\<close> and \<^verbatim>\<open>source_col2\<close>,
  filled with the cells of \<^verbatim>\<open>a\<close> and \<^verbatim>\<open>b\<close>.
\<close>

theorem save_data_dict_scenario:
  "save_data empty_fs
      \<lparr>columns = [''source_col1'', ''source_col2''], records = [(0, [10, 20 :: int])]\<rparr>
      ''out.json.gz'' ''processed_data''
      (ColsDict [(''a'', ''source_col1''), (''b'', ''source_col2'')])
     = Inl (KeyError [''a'', ''b''])
   \<and> map_sum id snd (save_data empty_fs
      \<lparr>columns = [''a'', ''b'', ''source_col1'', ''source_col2''],
       records = [(0, [1, 2, 10, 20 :: int])]\<rparr>
      ''out.json.gz'' ''processed_data''
      (ColsDict [(''a'', ''source_col1''), (''b'', ''source_col2'')]))
     = Inr \<lparr>columns = [''source_col1'', ''source_col2''], records = [(0, [1, 2])]\<rparr>"
  by (simp add: save_data_def select_columns_def getitem_columns_def rename_columns_def
        os_mkdir_def to_json_def empty_fs_def List.map_filter_simps)

text \<open>
  Claim C2 (amended): for every dataframe (distinct column names, one cell per column in
  every row) and every non-empty dict passed as \<^verbatim>\<open>columns\<close> whose keys are columns of the
  dataframe and whose values are distinct, the saved and returned output contains exactly
  the columns named by the dict's values as final names, in the order of the dict, each
  populated from the source column named by the corresponding key, with the rows and
  their labels kept; the file holds the records of that output. When a key is not a
  column of the dataframe, \<^verbatim>\<open>save_data\<close> raises \<^verbatim>\<open>KeyError\<close> with the missing keys.
\<close>

theorem save_data_dict_selects_keys_renames_to_values:
  assumes "items \<noteq> []" and "distinct (map fst items)" and "distinct (map snd items)"
      and "wf_dataframe df"
  shows "if set (map fst items) \<subseteq> set (columns df) then
           \<exists>fs' out. save_data fs df filename directory (ColsDict items) = Inr (fs', out)
              \<and> columns out = map snd items
              \<and> (\<forall>(k, v) \<in> set items. column out v = column df k)
              \<and> map fst (records out) = map fst (records df)
              \<and> files fs' (path_join directory filename) = Some (json_records out)
         else save_data fs df filename directory (ColsDict items)
              = Inl (KeyError (filter (\<lambda>k. k \<notin> set (columns df)) (map fst items)))"
proof (cases "set (map fst items) \<subseteq> set (columns df)")
  case False
  then show ?thesis
    using select_columns_dict_missing [OF assms(1) False]
    by (simp add: save_data_def)
next
  case True
  let ?out = "\<lparr>columns = map snd items,
                records = map (\<lambda>(i, r). (i, List.map_filter (map_of (zip (columns df) r)) (map fst items)))
                              (records df)\<rparr>"
  have sel: "select_columns df (ColsDict items) = Inr ?out"
    by (rule select_columns_dict [OF assms(1,2) True])
  have saved: "save_data fs df filename directory (ColsDict items)
         = Inr (fs\<lparr>dirs := insert directory (dirs fs),
                    files := (files fs)(path_join directory filename \<mapsto> json_records ?out)\<rparr>, ?out)"
    by (rule save_data_selected [OF sel]) (simp add: assms(3))
  have cells: "column ?out v = column df k" if kv: "(k, v) \<in> set items" for k v
  proof -
    have "map_of (zip (map snd items) (List.map_filter (map_of (zip (columns df) r)) (map fst items))) v
          = map_of (zip (columns df) r) k"
      if row: "(i, r) \<in> set (records df)" for i r
    proof -
      have len: "length r = length (columns df)"
        using assms(4) row by (auto simp: wf_dataframe_def list_all_iff)
      have some: "\<forall>k \<in> set (map fst items). map_of (zip (columns df) r) k \<noteq> None"
        using True len by (metis map_of_zip_is_Some option.distinct(1) subsetD)
      have "k \<in> set (map fst items)" using kv by force
      with some obtain c where c: "map_of (zip (columns df) r) k = Some c" by auto
      have "map_of (zip (map snd items)
                 (map (\<lambda>k. the (map_of (zip (columns df) r) k)) (map fst items))) v
            = Some (the (map_of (zip (columns df) r) k))"
        by (rule map_of_renamed [OF assms(3) kv])
      then show ?thesis by (simp add: map_filter_all_Some [OF some] c)
    qed
    then show ?thesis by (auto simp: column_def)
  qed
  have "map fst (records ?out) = map fst (records df)"
    by (simp add: o_def split_def)
  with saved cells show ?thesis using True by auto
qed


theorem save_data_dict_selects_keys_renames_to_values_witness:
  "\<exists>fs' out.
      save_data empty_fs
        \<lparr>columns = [''geokey'', ''latitude'', ''WardID''],
         records = [(0, [''-3400000;1800000'', ''-34.0'', ''19100001''])]\<rparr>
        ''located_grid.json.gz'' ''processed_data''
        (ColsDict [(''WardID'', ''ward_id''), (''geokey'', ''geokey'')]) = Inr (fs', out)
      \<and> columns out = [''ward_id'', ''geokey'']
      \<and> column out ''ward_id'' = [Some ''19100001'']
      \<and> files fs' ''processed_data/located_grid.json.gz'' = Some (json_records out)"
proof -
  let ?df = "\<lparr>columns = [''geokey'', ''latitude'', ''WardID''],
              records = [(0, [''-3400000;1800000'', ''-34.0'', ''19100001''])]\<rparr>"
  let ?items = "[(''WardID'', ''ward_id''), (''geokey'', ''geokey'')]"
  have h1: "?items \<noteq> []" and h2: "distinct (map fst ?items)" and h3: "distinct (map snd ?items)"
    by simp_all
  have h4: "wf_dataframe ?df" by (simp add: wf_dataframe_def)
  have p: "path_join ''processed_data'' ''located_grid.json.gz''
           = ''processed_data/located_grid.json.gz''"
    by (simp add: path_join_def)
  have c: "column ?df ''WardID'' = [Some ''19100001'']" by (simp add: column_def)
  from save_data_dict_selects_keys_renames_to_values
         [OF h1 h2 h3 h4, of empty_fs "''located_grid.json.gz''" "''processed_data''"]
  obtain fs' out where
    "save_data empty_fs ?df ''located_grid.json.gz'' ''processed_data'' (ColsDict ?items)
       = Inr (fs', out)"
    "columns out = [''ward_id'', ''geokey'']"
    "column out ''ward_id'' = column ?df ''WardID''"
    "files fs' ''processed_data/located_grid.json.gz'' = Some (json_records out)"
    unfolding p by auto
  then show ?thesis unfolding c by blast
qed

text \<open>
  Claim C10: when the \<^verbatim>\<open>columns\<close> argument is a non-empty list, \<^verbatim>\<open>save_data\<close> selects
  nothing: it does exactly what it does without a \<^verbatim>\<open>columns\<close> argument, and for every
  dataframe (whose column names are distinct, as the JSON writer requires) it returns the
  dataframe unchanged, with every original column, and writes the records of that same
  dataframe.
\<close>

theorem save_data_list_selects_nothing:
  assumes "names \<noteq> []"
  shows "save_data fs df filename directory (ColsList names)
           = save_data fs df filename directory ColsNone
       \<and> (distinct (columns df) \<longrightarrow>
            (\<exists>fs'. save_data fs df filename directory (ColsList names) = Inr (fs', df)
                \<and> files fs' (path_join directory filename) = Some (json_records df)))"
proof -
  have sel: "select_columns df (ColsList names) = Inr df"
    using assms by (simp add: select_columns_def)
  have "select_columns df ColsNone = Inr df"
    by (simp add: select_columns_def)
  with sel have "save_data fs df filename directory (ColsList names)
           = save_data fs df filename directory ColsNone"
    by (simp add: save_data_def)
  moreover have "\<exists>fs'. save_data fs df filename directory (ColsList names) = Inr (fs', df)
                \<and> files fs' (path_join directory filename) = Some (json_records df)"
    if "distinct (columns df)"
    using save_data_selected [OF sel that, of fs filename directory] by simp
  ultimately show ?thesis by blast
qed

theorem save_data_list_selects_nothing_witness:
  "map_sum id snd (save_data empty_fs
      \<lparr>columns = [''geokey'', ''latitude'', ''WardID''],
       records = [(0, [''-3400000;1800000'', ''-34.0'', ''19100001''])]\<rparr>
      ''grid.json.gz'' ''datasets'' (ColsList [''geokey'']))
     = Inr \<lparr>columns = [''geokey'', ''latitude'', ''WardID''],
            records = [(0, [''-3400000;1800000'', ''-34.0'', ''19100001''])]\<rparr>"
proof -
  let ?df = "\<lparr>columns = [''geokey'', ''latitude'', ''WardID''],
              records = [(0, [''-3400000;1800000'', ''-34.0'', ''19100001''])]\<rparr>"
  have h: "[''geokey''] \<noteq> []" and d: "distinct (columns ?df)" by simp_all
  from save_data_list_selects_nothing [OF h, of empty_fs ?df "''grid.json.gz''" "''datasets''"] d
  obtain fs' where "save_data empty_fs ?df ''grid.json.gz'' ''datasets'' (ColsList [''geokey''])
                    = Inr (fs', ?df)"
    by blast
  then show ?thesis by simp
qed

section \<open>Properties of the geokey encoder\<close>

text \<open>Evaluation of the rounding on numerals.\<close>

lemma floor_rat_numeral: "\<lfloor>numeral a / numeral b :: rat\<rfloor> = numeral a div numeral b"
  by (metis floor_divide_of_int_eq of_int_numeral)

lemma ceiling_rat_numeral:
  "\<lceil>numeral a / numeral b :: rat\<rceil> = - ((- numeral a) div numeral b)"
  unfolding ceiling_def
  by (metis floor_divide_of_int_eq minus_divide_left of_int_minus of_int_numeral)

lemma bit_length_0: "bit_length 0 = 0"
  by (simp add: bit_length.simps)

lemma bit_length_1: "bit_length (Suc 0) = 1"
  by (simp add: bit_length.simps)

lemma bit_length_numeral:
  "bit_length (numeral k) = 1 + bit_length (numeral k div 2)"
  by (subst bit_length.simps) simp

lemmas double_eval = floor_rat_numeral ceiling_rat_numeral bit_length_0 bit_length_1
  bit_length_numeral floor_log2_def pow2_def rint_def to_double_def

lemma double_6: "to_double (6 / 100000) = 8854437155380585 / 147573952589676412928"
  by (simp add: double_eval)

lemma double_7: "to_double (7 / 100000) = 2582544170319337 / 36893488147419103232"
  by (simp add: double_eval)

lemma rounded_6: "series_round 5 (8854437155380585 / 147573952589676412928)
                  = 8854437155380585 / 147573952589676412928"
  by (simp add: series_round_def double_eval)

lemma rounded_7: "series_round 5 (2582544170319337 / 36893488147419103232)
                  = 2582544170319337 / 36893488147419103232"
  by (simp add: series_round_def double_eval)

lemma times_6: "to_double (8854437155380585 / 147573952589676412928 * 100000) = 6"
  by (simp add: double_eval)

lemma times_7: "to_double (2582544170319337 / 36893488147419103232 * 100000)
                = 7881299347898367 / 1125899906842624"
  by (simp add: double_eval)

lemma str_6: "astype_str 6 = ''6''"
  by (simp add: astype_str_def str_nat.simps)

lemma key_6: "geokey_of (8854437155380585 / 147573952589676412928)
                 (8854437155380585 / 147573952589676412928) = ''6;6''"
  by (simp only: geokey_of_def times_6) (simp add: astype_int_def str_6)

lemma key_7: "geokey_of (2582544170319337 / 36893488147419103232)
                 (2582544170319337 / 36893488147419103232) = ''6;6''"
  by (simp only: geokey_of_def times_7) (simp add: astype_int_def floor_rat_numeral str_6)

lemma round_level_1: "round_level 1 = Some 5"
  by (simp add: round_level_def upt_rec)

text \<open>
  Claim C8, at \<^verbatim>\<open>accuracy_m = 1\<close> (five decimal places) and the two points with latitude
  and longitude 0.00006 and 0.00007: the rounded coordinates differ, so the points lie in
  different rounding cells, yet both rows get the key \<^verbatim>\<open>6;6\<close>. In doubles
  \<^verbatim>\<open>0.00007*100000\<close> is 7881299347898367 / 1125899906842624, just below 7, and
  \<^verbatim>\<open>astype(int)\<close> truncates it to 6.
\<close>

theorem generate_key_collision:
  "round_level 1 = Some 5
   \<and> series_round 5 (to_double (6 / 100000)) \<noteq> series_round 5 (to_double (7 / 100000))
   \<and> map_option geokey_column
     (generate_key [(0, (to_double (6 / 100000), to_double (6 / 100000), ())),
                    (1, (to_double (7 / 100000), to_double (7 / 100000), ()))] 1)
     = Some [''6;6'', ''6;6'']"
proof -
  have cells: "series_round 5 (to_double (6 / 100000)) \<noteq> series_round 5 (to_double (7 / 100000))"
    unfolding double_6 double_7 rounded_6 rounded_7 by simp
  have "generate_key [(0, (to_double (6 / 100000), to_double (6 / 100000), ())),
                      (1, (to_double (7 / 100000), to_double (7 / 100000), ()))] 1
        = Some [(0, (8854437155380585 / 147573952589676412928,
                     8854437155380585 / 147573952589676412928, (), ''6;6'')),
                (1, (2582544170319337 / 36893488147419103232,
                     2582544170319337 / 36893488147419103232, (), ''6;6''))]"
    unfolding generate_key_def round_level_1 double_6 double_7
    by (simp only: option.case list.map prod.case rounded_6 rounded_7 key_6 key_7)
  then have "map_option geokey_column
     (generate_key [(0, (to_double (6 / 100000), to_double (6 / 100000), ())),
                    (1, (to_double (7 / 100000), to_double (7 / 100000), ()))] 1)
     = Some [''6;6'', ''6;6'']"
    by (simp only: option.map geokey_column_def list.map prod.case)
  with cells round_level_1 show ?thesis by (intro conjI)
qed

text \<open>
  The other half of the claim holds: two points whose coordinates round equal get equal
  keys, the key being computed from the rounded coordinates alone.
\<close>

lemma geokey_same_cell:
  assumes "round_level accuracy_m = Some k"
      and "series_round k lat1 = series_round k lat2"
      and "series_round k long1 = series_round k long2"
  shows "map_option geokey_column (generate_key [(i1, (lat1, long1, x1))] accuracy_m)
         = map_option geokey_column (generate_key [(i2, (lat2, long2, x2))] accuracy_m)"
  using assms by (simp add: generate_key_def geokey_column_def)

end
